theory Spec2Isabelle
  imports Main "HOL-Library.Sublist"
begin

section \<open>Static file server: the per-connection handler of server.py\<close>

text \<open>
  The development embeds \<^verbatim>\<open>HTTPWorker\<close> of \<^verbatim>\<open>src/server.py\<close>: the read loop
  \<^verbatim>\<open>_recv_request\<close>, the parser \<^verbatim>\<open>_parse_request_line\<close>, the response writer
  \<^verbatim>\<open>_send_response\<close> and the handler \<^verbatim>\<open>run\<close>, together with the functions of
  Python's \<^verbatim>\<open>posixpath\<close> and \<^verbatim>\<open>str\<close> that the handler calls.

  Representation.
  \<^item> \<^verbatim>\<open>bytes\<close> values are lists of 8-bit characters.
  \<^item> \<^verbatim>\<open>str\<close> values are lists of 8-bit characters as well, read as the code points
    0..255. This is exact for the request text (the handler decodes it as ISO-8859-1, one
    code point per byte) and for every literal of the source; the document root, the
    working directory, the MIME types and the date are taken in that range.
  \<^item> The socket is a script of what successive \<^verbatim>\<open>recv\<close> and \<^verbatim>\<open>sendall\<close> calls do; the
    file system is a map from the path string handed to the operating system to the node
    found there; the clock and the MIME table are parameters.
\<close>

type_synonym bytes = "char list"

definition CR :: char where
  "CR = CHR 0x0D"

definition LF :: char where
  "LF = CHR 0x0A"

definition CRLF :: string where
  "CRLF = [CR, LF]"

subsection \<open>Python string operations\<close>

text \<open>\<^verbatim>\<open>s.startswith(p)\<close>.\<close>

definition startswith :: "string \<Rightarrow> string \<Rightarrow> bool" where
  "startswith s p = prefix p s"

text \<open>\<^verbatim>\<open>pat in data\<close> on bytes: \<open>pat\<close> occurs as a contiguous block.\<close>

fun contains :: "bytes \<Rightarrow> bytes \<Rightarrow> bool" where
  "contains pat [] = (pat = [])"
| "contains pat (x # xs) = (prefix pat (x # xs) \<or> contains pat xs)"

text \<open>
  \<^verbatim>\<open>s.split('\r\n')\<close>: the pieces between the occurrences of the separator, found from
  the left and not overlapping. The result is never empty.
\<close>

fun split_crlf :: "string \<Rightarrow> string list" where
  "split_crlf [] = [[]]"
| "split_crlf (c # cs) =
     (if c = CR \<and> take 1 cs = [LF] then [] # split_crlf (drop 1 cs)
      else (case split_crlf cs of
              [] \<Rightarrow> [[c]]
            | l # ls \<Rightarrow> (c # l) # ls))"

text \<open>\<^verbatim>\<open>s.split(sep)\<close> for a separator of one character.\<close>

fun split_char :: "char \<Rightarrow> string \<Rightarrow> string list" where
  "split_char sep [] = [[]]"
| "split_char sep (c # cs) =
     (if c = sep then [] # split_char sep cs
      else (case split_char sep cs of
              [] \<Rightarrow> [[c]]
            | l # ls \<Rightarrow> (c # l) # ls))"

text \<open>\<^verbatim>\<open>sep.join(parts)\<close>.\<close>

fun join_str :: "string \<Rightarrow> string list \<Rightarrow> string" where
  "join_str sep [] = []"
| "join_str sep [p] = p"
| "join_str sep (p # q # ps) = p @ sep @ join_str sep (q # ps)"

text \<open>
  \<^verbatim>\<open>c.isspace()\<close> for a code point below 256: TAB, LF, VT, FF, CR, the separators
  0x1C..0x1F, the space, NEL (0x85) and the no-break space (0xA0).
\<close>

definition isspace :: "char \<Rightarrow> bool" where
  "isspace c =
     (let n = (of_char c :: nat)
      in (9 \<le> n \<and> n \<le> 13) \<or> (28 \<le> n \<and> n \<le> 32) \<or> n = 133 \<or> n = 160)"

text \<open>
  \<^verbatim>\<open>s.split()\<close>: the maximal runs of characters that are not white space, in order;
  leading and trailing white space yields no empty piece.
\<close>

function split_ws :: "string \<Rightarrow> string list" where
  "split_ws s =
     (let t = dropWhile isspace s
      in if t = [] then []
         else takeWhile (\<lambda>c. \<not> isspace c) t # split_ws (dropWhile (\<lambda>c. \<not> isspace c) t))"
  by pat_completeness auto
termination
proof (relation "measure length")
  show "wf (measure length)" by simp
next
  fix s t :: string
  assume t: "t = dropWhile isspace s" and ne: "t \<noteq> []"
  from ne obtain c cs where tc: "t = c # cs" by (cases t) auto
  with t have "dropWhile isspace s = c # cs" by simp
  then have "\<not> isspace c" by (simp add: dropWhile_eq_Cons_conv)
  then have "dropWhile (\<lambda>c. \<not> isspace c) t = dropWhile (\<lambda>c. \<not> isspace c) cs"
    using tc by simp
  then have "length (dropWhile (\<lambda>c. \<not> isspace c) t) \<le> length cs"
    by (simp add: length_dropWhile_le)
  moreover have "length t \<le> length s"
    using t by (simp add: length_dropWhile_le)
  ultimately show "(dropWhile (\<lambda>c. \<not> isspace c) t, s) \<in> measure length"
    using tc by simp
qed

declare split_ws.simps [simp del]

text \<open>\<^verbatim>\<open>s.lstrip('/')\<close>: every leading \<open>/\<close> is removed.\<close>

definition lstrip :: "char \<Rightarrow> string \<Rightarrow> string" where
  "lstrip ch s = dropWhile (\<lambda>c. c = ch) s"

text \<open>\<^verbatim>\<open>str(n)\<close> for an integer: the decimal digits, with a sign when negative.\<close>

definition digit_char :: "nat \<Rightarrow> char" where
  "digit_char d = char_of (48 + d)"

fun str_nat :: "nat \<Rightarrow> string" where
  "str_nat n = (if n < 10 then [digit_char n] else str_nat (n div 10) @ [digit_char (n mod 10)])"

declare str_nat.simps [simp del]

definition str_int :: "int \<Rightarrow> string" where
  "str_int i = (if i < 0 then CHR ''-'' # str_nat (nat (- i)) else str_nat (nat i))"

text \<open>
  \<^verbatim>\<open>s.encode('utf-8')\<close> for code points below 256: one byte below 0x80, two bytes
  from 0x80 on.
\<close>

definition utf8_char :: "char \<Rightarrow> bytes" where
  "utf8_char c =
     (let n = (of_char c :: nat)
      in if n < 128 then [c] else [char_of (192 + n div 64), char_of (128 + n mod 64)])"

definition utf8_encode :: "string \<Rightarrow> bytes" where
  "utf8_encode s = concat (map utf8_char s)"

subsection \<open>posixpath\<close>

text \<open>
  \<^verbatim>\<open>os.path.join(a, b)\<close>: an absolute \<open>b\<close> replaces \<open>a\<close>; otherwise \<open>b\<close> is appended,
  after a \<open>/\<close> unless \<open>a\<close> is empty or already ends with one.
\<close>

definition path_join :: "string \<Rightarrow> string \<Rightarrow> string" where
  "path_join a b =
     (if startswith b ''/'' then b
      else if a = [] \<or> last a = CHR ''/'' then a @ b
      else a @ ''/'' @ b)"

text \<open>
  One round of the loop of \<^verbatim>\<open>os.path.normpath\<close> over the components: empty and \<open>.\<close>
  components are skipped; \<open>..\<close> removes the last kept component, except that it is kept
  in a relative path that has nothing left to remove, or after another kept \<open>..\<close>, and is
  dropped at the root of an absolute path.
\<close>

definition norm_step :: "nat \<Rightarrow> string list \<Rightarrow> string \<Rightarrow> string list" where
  "norm_step initial_slashes new_comps part =
     (if part = [] \<or> part = ''.'' then new_comps
      else if part \<noteq> ''..'' \<or> (initial_slashes = 0 \<and> new_comps = [])
                \<or> (new_comps \<noteq> [] \<and> last new_comps = ''..'')
           then new_comps @ [part]
      else if new_comps \<noteq> [] then butlast new_comps
      else new_comps)"

text \<open>
  \<^verbatim>\<open>os.path.normpath(path)\<close>. Exactly two leading slashes are kept as two, any other
  positive number as one.
\<close>

definition normpath :: "string \<Rightarrow> string" where
  "normpath path =
     (if path = [] then ''.''
      else
        let initial_slashes =
              (if startswith path ''/''
               then (if startswith path ''//'' \<and> \<not> startswith path ''///'' then 2 else 1)
               else (0::nat));
            comps = split_char CHR ''/'' path;
            new_comps = foldl (norm_step initial_slashes) [] comps;
            p = replicate initial_slashes CHR ''/'' @ join_str ''/'' new_comps
        in if p = [] then ''.'' else p)"

text \<open>\<^verbatim>\<open>os.path.abspath(path)\<close>, with the working directory \<open>cwd\<close>.\<close>

definition abspath :: "string \<Rightarrow> string \<Rightarrow> string" where
  "abspath cwd path = normpath (if startswith path ''/'' then path else path_join cwd path)"

subsection \<open>The world of one handler: socket, file system, clock\<close>

text \<open>
  What one \<^verbatim>\<open>recv(1024)\<close> call does: it returns bytes (none when the peer has closed),
  it raises \<^verbatim>\<open>socket.timeout\<close> after two seconds of silence, or it raises another error.
\<close>

datatype recv_event = Chunk bytes | Timeout | RecvError

text \<open>
  What one \<^verbatim>\<open>sendall\<close> call does: it transmits the whole payload, or it raises after
  having transmitted some of its bytes.
\<close>

datatype send_result = SendOk | SendFail nat

text \<open>
  What a path names: a regular file that can be read, with its contents; a directory; or
  something that exists and is no directory but cannot be opened and read.
\<close>

datatype fsnode = RegularFile bytes | Directory | Unreadable

datatype fs_call = IsDir string | Exists string | Open string

datatype py_exception = ValueError string | OSError

text \<open>The body handed to \<^verbatim>\<open>_send_response\<close>: \<^verbatim>\<open>bytes\<close> or \<^verbatim>\<open>str\<close>.\<close>

datatype py_body = Bytes bytes | Str string

text \<open>
  What the handler is given and never changes: \<^verbatim>\<open>self.docroot\<close>, the working directory
  of the process, the file system, \<^verbatim>\<open>mimetypes.guess_type\<close> (its first component) and
  the clock behind \<^verbatim>\<open>http_date()\<close>, which may answer differently at each call.
\<close>

record env =
  docroot :: string
  cwd :: string
  fs :: "string \<Rightarrow> fsnode option"
  guess_type :: "string \<Rightarrow> string option"
  http_date :: "nat \<Rightarrow> string"

text \<open>
  What the handler changes: the client socket (\<open>inbox\<close>: what the coming \<^verbatim>\<open>recv\<close> calls
  do, the peer having closed once the script is used up; \<open>send_script\<close>: what the coming
  \<^verbatim>\<open>sendall\<close> calls do, succeeding once the script is used up; \<open>close_raises\<close>: whether
  closing the descriptor raises; \<open>sent\<close>: the payloads handed to \<^verbatim>\<open>sendall\<close> so far;
  \<open>wire\<close>: the bytes transmitted so far; \<open>is_closed\<close>) and the log of the calls made to
  the file system.

  The script of the socket is finite, so the read loop ends; a peer that keeps sending
  bytes without a blank line for ever is outside the model. \<^verbatim>\<open>settimeout\<close> on the
  accepted socket is taken to succeed, and a chunk may have any length (\<^verbatim>\<open>recv(1024)\<close>
  returns at most 1024 bytes; nothing here depends on the bound). The file system does
  not change while one request is handled.
\<close>

record world =
  inbox :: "recv_event list"
  send_script :: "send_result list"
  close_raises :: bool
  sent :: "bytes list"
  wire :: bytes
  is_closed :: bool
  fs_calls :: "fs_call list"

text \<open>A connection as \<^verbatim>\<open>accept\<close> hands it over: open, nothing sent, no file touched.\<close>

definition accepted :: "recv_event list \<Rightarrow> send_result list \<Rightarrow> bool \<Rightarrow> world" where
  "accepted evs outcomes cr =
     \<lparr>inbox = evs, send_script = outcomes, close_raises = cr,
      sent = [], wire = [], is_closed = False, fs_calls = []\<rparr>"

text \<open>
  \<^verbatim>\<open>clientsocket.sendall(payload)\<close>. On a closed socket it raises and transmits nothing.
\<close>

definition sendall :: "bytes \<Rightarrow> world \<Rightarrow> (py_exception + unit) \<times> world" where
  "sendall payload w =
     (let w' = w\<lparr>sent := sent w @ [payload]\<rparr>
      in if is_closed w then (Inl OSError, w')
         else (case send_script w of
                 [] \<Rightarrow> (Inr (), w'\<lparr>wire := wire w @ payload\<rparr>)
               | SendOk # rest \<Rightarrow>
                   (Inr (), w'\<lparr>wire := wire w @ payload, send_script := rest\<rparr>)
               | SendFail n # rest \<Rightarrow>
                   (Inl OSError, w'\<lparr>wire := wire w @ take n payload, send_script := rest\<rparr>)))"

text \<open>
  \<^verbatim>\<open>clientsocket.close()\<close>. The descriptor is given up before the system call, so the
  socket is closed afterwards even when the call raises; closing a closed socket does
  nothing.
\<close>

definition close :: "world \<Rightarrow> (py_exception + unit) \<times> world" where
  "close w =
     (if is_closed w then (Inr (), w)
      else (if close_raises w then Inl OSError else Inr (), w\<lparr>is_closed := True\<rparr>))"

text \<open>\<^verbatim>\<open>os.path.isdir\<close>, \<^verbatim>\<open>os.path.exists\<close> and \<^verbatim>\<open>open(p, 'rb').read()\<close>.\<close>

definition isdir :: "env \<Rightarrow> string \<Rightarrow> world \<Rightarrow> bool \<times> world" where
  "isdir e p w = (fs e p = Some Directory, w\<lparr>fs_calls := fs_calls w @ [IsDir p]\<rparr>)"

definition path_exists :: "env \<Rightarrow> string \<Rightarrow> world \<Rightarrow> bool \<times> world" where
  "path_exists e p w = (fs e p \<noteq> None, w\<lparr>fs_calls := fs_calls w @ [Exists p]\<rparr>)"

definition read_file :: "env \<Rightarrow> string \<Rightarrow> world \<Rightarrow> (py_exception + bytes) \<times> world" where
  "read_file e p w =
     (case fs e p of
        Some (RegularFile content) \<Rightarrow> Inr content
      | _ \<Rightarrow> Inl OSError,
      w\<lparr>fs_calls := fs_calls w @ [Open p]\<rparr>)"

subsection \<open>\<^verbatim>\<open>_recv_request\<close>\<close>

text \<open>
  The loop of \<^verbatim>\<open>_recv_request\<close> over the script of the socket: it stops when the data
  holds the blank line, when \<^verbatim>\<open>recv\<close> returns no bytes and on a timeout, with the data
  so far; on any other error the result is \<^verbatim>\<open>None\<close>.
\<close>

fun recv_loop :: "bytes \<Rightarrow> recv_event list \<Rightarrow> bytes option \<times> recv_event list" where
  "recv_loop data evs =
     (if contains (CRLF @ CRLF) data then (Some data, evs)
      else (case evs of
              [] \<Rightarrow> (Some data, [])
            | Chunk chunk # rest \<Rightarrow>
                if chunk = [] then (Some data, rest) else recv_loop (data @ chunk) rest
            | Timeout # rest \<Rightarrow> (Some data, rest)
            | RecvError # rest \<Rightarrow> (None, rest)))"

declare recv_loop.simps [simp del]

text \<open>\<^verbatim>\<open>data.decode('iso-8859-1')\<close>: byte \<open>n\<close> becomes code point \<open>n\<close>.\<close>

definition latin1_decode :: "bytes \<Rightarrow> string" where
  "latin1_decode data = data"

definition recv_request :: "world \<Rightarrow> string option \<times> world" where
  "recv_request w =
     (case recv_loop [] (inbox w) of
        (None, rest) \<Rightarrow> (None, w\<lparr>inbox := rest\<rparr>)
      | (Some data, rest) \<Rightarrow>
          (Some (if data \<noteq> [] then latin1_decode data else []), w\<lparr>inbox := rest\<rparr>))"

subsection \<open>\<^verbatim>\<open>_parse_request_line\<close>\<close>

definition parse_request_line :: "string \<Rightarrow> py_exception + string \<times> string \<times> string" where
  "parse_request_line request_text =
     (let lines = split_crlf request_text
      in if length lines = 0 \<or> hd lines = [] then Inl (ValueError ''Empty request'')
         else let parts = split_ws (hd lines)
              in if length parts < 3 then Inl (ValueError ''Invalid request line format'')
                 else Inr (parts ! 0, parts ! 1, parts ! 2))"

subsection \<open>\<^verbatim>\<open>_send_response\<close>\<close>

text \<open>The reason phrases; a code that is not in the table gets \<open>OK\<close>.\<close>

definition reason_phrase :: "int \<Rightarrow> string" where
  "reason_phrase status_code =
     (case map_of [(200, ''OK''), (404, ''Not Found''), (500, ''Internal Server Error''),
                   (405, ''Method Not Allowed'')] status_code of
        Some r \<Rightarrow> r
      | None \<Rightarrow> ''OK'')"

definition SERVER_NAME :: string where
  "SERVER_NAME = ''NikkiGorskiServer/1.0''"

definition header_lines :: "string \<Rightarrow> int \<Rightarrow> bytes \<Rightarrow> string \<Rightarrow> string list" where
  "header_lines date status_code body content_type =
     [''HTTP/1.1 '' @ str_int status_code @ '' '' @ reason_phrase status_code,
      ''Date: '' @ date,
      ''Server: '' @ SERVER_NAME,
      ''Content-Type: '' @ content_type,
      ''Content-Length: '' @ str_nat (length body),
      CRLF]"

text \<open>The bytes of one response: the encoded header block, then the body.\<close>

definition response_bytes :: "string \<Rightarrow> int \<Rightarrow> bytes \<Rightarrow> string \<Rightarrow> bytes" where
  "response_bytes date status_code body content_type =
     utf8_encode (join_str CRLF (header_lines date status_code body content_type)) @ body"

definition send_response ::
  "env \<Rightarrow> int \<Rightarrow> py_body \<Rightarrow> string \<Rightarrow> world \<Rightarrow> (py_exception + unit) \<times> world" where
  "send_response e status_code body content_type w =
     (let body = (case body of Str s \<Rightarrow> utf8_encode s | Bytes b \<Rightarrow> b)
      in sendall (response_bytes (http_date e (length (sent w))) status_code body content_type) w)"

subsection \<open>\<^verbatim>\<open>run\<close>\<close>

text \<open>The path the handler looks up for a request target (line 33).\<close>

definition resolve :: "string \<Rightarrow> string \<Rightarrow> string" where
  "resolve root target = normpath (path_join root (lstrip CHR ''/'' target))"

text \<open>Lines 49 to 51: the guessed type, \<open>application/octet-stream\<close> when there is none.\<close>

definition mime_or_default :: "env \<Rightarrow> string \<Rightarrow> string" where
  "mime_or_default e fullpath =
     (case guess_type e fullpath of None \<Rightarrow> ''application/octet-stream'' | Some t \<Rightarrow> t)"

text \<open>
  Lines 44 to 52: a path that does not exist is answered 404; otherwise the file is read
  whole and sent with its type.
\<close>

definition serve_file :: "env \<Rightarrow> string \<Rightarrow> world \<Rightarrow> (py_exception + unit) \<times> world" where
  "serve_file e fullpath w =
     (case path_exists e fullpath w of
        (False, w1) \<Rightarrow> send_response e 404 (Bytes ''Not Found'') ''text/plain'' w1
      | (True, w1) \<Rightarrow>
          (case read_file e fullpath w1 of
             (Inl ex, w2) \<Rightarrow> (Inl ex, w2)
           | (Inr body, w2) \<Rightarrow>
               send_response e 200 (Bytes body) (mime_or_default e fullpath) w2))"

text \<open>
  The body of the \<^verbatim>\<open>try\<close> block, lines 25 to 52. The result is \<open>Inl\<close> when an exception
  leaves the block.
\<close>

definition run_body :: "env \<Rightarrow> world \<Rightarrow> (py_exception + unit) \<times> world" where
  "run_body e w =
     (case recv_request w of
        (None, w1) \<Rightarrow> close w1
      | (Some request, w1) \<Rightarrow>
          if request = [] then close w1
          else (case parse_request_line request of
                  Inl ex \<Rightarrow> (Inl ex, w1)
                | Inr (method, path, version) \<Rightarrow>
                    if method \<noteq> ''GET''
                    then send_response e 405 (Bytes ''Method Not Allowed'') ''text/plain'' w1
                    else
                      let fullpath = resolve (docroot e) path
                      in if \<not> startswith fullpath (abspath (cwd e) (docroot e))
                         then send_response e 404 (Bytes ''Not Found'') ''text/plain'' w1
                         else (case isdir e fullpath w1 of
                                 (True, w2) \<Rightarrow>
                                   (let index = path_join fullpath ''index.html''
                                    in case path_exists e index w2 of
                                         (True, w3) \<Rightarrow> serve_file e index w3
                                       | (False, w3) \<Rightarrow>
                                           send_response e 404 (Bytes ''Not Found'')
                                             ''text/plain'' w3)
                               | (False, w2) \<Rightarrow> serve_file e fullpath w2)))"

text \<open>
  \<^verbatim>\<open>run\<close>: an exception of the body is answered with a 500 whose own failure is
  ignored; the socket is closed last in every case, a failure of that ignored as well.
\<close>

definition run :: "env \<Rightarrow> world \<Rightarrow> world" where
  "run e w =
     (case run_body e w of
        (Inl ex, w1) \<Rightarrow>
          snd (close (snd (send_response e 500 (Bytes ''Internal Server Error'')
                             ''text/plain'' w1)))
      | (Inr u, w1) \<Rightarrow> snd (close w1))"

subsection \<open>Reading a response\<close>

text \<open>
  How a client reads the bytes of a response: the head ends at the first blank line
  (CR LF CR LF) and the body is everything after it; the head splits into lines at CR LF;
  the status is the second word of the first line; a header field is the first later line
  that starts with its name, a colon and a space; Content-Length is read as a decimal
  number. These functions state what the claims about framing mean; the handler does not
  call them.
\<close>

fun split_head :: "bytes \<Rightarrow> (bytes \<times> bytes) option" where
  "split_head [] = None"
| "split_head (c # cs) =
     (if prefix (CRLF @ CRLF) (c # cs) then Some ([], drop 3 cs)
      else (case split_head cs of
              None \<Rightarrow> None
            | Some (h, b) \<Rightarrow> Some (c # h, b)))"

definition body_of :: "bytes \<Rightarrow> bytes option" where
  "body_of m = map_option snd (split_head m)"

definition head_lines :: "bytes \<Rightarrow> bytes list" where
  "head_lines m = (case split_head m of None \<Rightarrow> [] | Some (h, b) \<Rightarrow> split_crlf h)"

definition status_of :: "bytes \<Rightarrow> bytes option" where
  "status_of m =
     (case head_lines m of
        [] \<Rightarrow> None
      | l # ls \<Rightarrow> (case split_char CHR '' '' l of
                    v # code # rest \<Rightarrow> Some code
                  | _ \<Rightarrow> None))"

definition header_field :: "bytes \<Rightarrow> bytes \<Rightarrow> bytes option" where
  "header_field name m =
     (case filter (prefix (name @ '': '')) (tl (head_lines m)) of
        [] \<Rightarrow> None
      | l # ls \<Rightarrow> Some (drop (length name + 2) l))"

definition digit_val :: "char \<Rightarrow> nat option" where
  "digit_val c =
     (let n = (of_char c :: nat) in if 48 \<le> n \<and> n \<le> 57 then Some (n - 48) else None)"

fun read_digits :: "nat \<Rightarrow> bytes \<Rightarrow> nat option" where
  "read_digits acc [] = Some acc"
| "read_digits acc (c # cs) =
     (case digit_val c of None \<Rightarrow> None | Some d \<Rightarrow> read_digits (10 * acc + d) cs)"

definition read_nat :: "bytes \<Rightarrow> nat option" where
  "read_nat s = (if s = [] then None else read_digits 0 s)"

definition content_length :: "bytes \<Rightarrow> nat option" where
  "content_length m =
     (case header_field ''Content-Length'' m of None \<Rightarrow> None | Some v \<Rightarrow> read_nat v)"

text \<open>The header lines of a response without the closing blank line, as bytes.\<close>

definition head_block :: "string \<Rightarrow> int \<Rightarrow> bytes \<Rightarrow> string \<Rightarrow> bytes list" where
  "head_block date status_code body content_type =
     map utf8_encode (butlast (header_lines date status_code body content_type))"

subsection \<open>Containment and the path resolution as the specification words it\<close>

text \<open>
  A normalized path lies within a directory when it is the directory or a path below it,
  by components.
\<close>

definition within_root :: "string \<Rightarrow> string \<Rightarrow> bool" where
  "within_root root p =
     (p = root \<or>
      startswith p (if root \<noteq> [] \<and> last root = CHR ''/'' then root else root @ ''/''))"

text \<open>
  The specification's words for the first step of the resolution: one leading \<open>/\<close> is
  removed from the target, if there is one, before joining and normalizing.
\<close>

definition strip_one_slash :: "string \<Rightarrow> string" where
  "strip_one_slash target = (if startswith target ''/'' then drop 1 target else target)"

definition resolve_spec :: "string \<Rightarrow> string \<Rightarrow> string" where
  "resolve_spec root target = normpath (path_join root (strip_one_slash target))"

subsection \<open>Outcome of a send, and a sample site\<close>

text \<open>The next \<^verbatim>\<open>sendall\<close> on this socket transmits its payload whole.\<close>

definition send_succeeds :: "world \<Rightarrow> bool" where
  "send_succeeds w =
     (\<not> is_closed w \<and> (case send_script w of SendFail n # rest \<Rightarrow> False | _ \<Rightarrow> True))"

text \<open>Two worlds with the socket in the same state: only the log of file calls may differ.\<close>

definition same_socket :: "world \<Rightarrow> world \<Rightarrow> bool" where
  "same_socket w w' =
     (sent w' = sent w \<and> wire w' = wire w \<and> is_closed w' = is_closed w \<and>
      send_script w' = send_script w \<and> close_raises w' = close_raises w)"

text \<open>
  The clock and the MIME table give single-line values: no date and no type holds a
  carriage return. (\<^verbatim>\<open>strftime\<close> with the format of \<^verbatim>\<open>http_date\<close> yields letters,
  digits, spaces, a comma and colons; the MIME table holds tokens.)
\<close>

definition single_line_env :: "env \<Rightarrow> bool" where
  "single_line_env e =
     ((\<forall>n. CR \<notin> set (http_date e n)) \<and> (\<forall>p t. guess_type e p = Some t \<longrightarrow> CR \<notin> set t))"

text \<open>
  The arguments with which \<^verbatim>\<open>run\<close> calls \<^verbatim>\<open>_send_response\<close>: the three error responses
  carry their reason phrase as plain text, and a 200 carries the contents of a file with
  the type found for its path.
\<close>

definition handler_response :: "env \<Rightarrow> int \<Rightarrow> bytes \<Rightarrow> string \<Rightarrow> bool" where
  "handler_response e code b ct =
     ((code = 405 \<and> b = ''Method Not Allowed'' \<and> ct = ''text/plain'') \<or>
      (code = 404 \<and> b = ''Not Found'' \<and> ct = ''text/plain'') \<or>
      (code = 500 \<and> b = ''Internal Server Error'' \<and> ct = ''text/plain'') \<or>
      (code = 200 \<and> (\<exists>p. fs e p = Some (RegularFile b) \<and> ct = mime_or_default e p)))"

text \<open>
  A document root \<open>/srv/www\<close> with a page, a style sheet, a directory \<open>docs\<close> whose entry
  \<open>index.html\<close> is itself a directory, a regular file \<open>locked.txt\<close> that the server has
  no permission to read, and beside the root a directory \<open>/srv/www-secret\<close> that is not
  part of the site.
\<close>

definition example_env :: env where
  "example_env =
     \<lparr>docroot = ''/srv/www'', cwd = ''/'',
      fs = map_of
        [(''/srv/www'', Directory),
         (''/srv/www/index.html'', RegularFile ''<h1>hello</h1>''),
         (''/srv/www/css'', Directory),
         (''/srv/www/css/style.css'', RegularFile ''body { margin: 0 }''),
         (''/srv/www/docs'', Directory),
         (''/srv/www/docs/index.html'', Directory),
         (''/srv/www/locked.txt'', Unreadable),
         (''/srv/www-secret'', Directory),
         (''/srv/www-secret/key.txt'', RegularFile ''hunter2'')],
      guess_type = map_of
        [(''/srv/www/index.html'', ''text/html''),
         (''/srv/www/css/style.css'', ''text/css'')],
      http_date = (\<lambda>n. ''Wed, 04 Nov 2026 12:00:00 GMT'')\<rparr>"

text \<open>A fresh connection on which the peer sends one request line and the blank line.\<close>

definition one_request :: "string \<Rightarrow> world" where
  "one_request line = accepted [Chunk (line @ CRLF @ CRLF)] [] False"

section \<open>Facts about the building blocks\<close>

subsection \<open>Decimal numbers and UTF-8\<close>

lemma of_char_digit: "d < 10 \<Longrightarrow> (of_char (digit_char d) :: nat) = 48 + d"
  by (simp add: digit_char_def)

lemma digit_val_digit: "d < 10 \<Longrightarrow> digit_val (digit_char d) = Some d"
  by (simp add: digit_val_def of_char_digit)

lemma read_digits_snoc:
  "read_digits a (xs @ [c]) =
     (case read_digits a xs of
        None \<Rightarrow> None
      | Some v \<Rightarrow> (case digit_val c of None \<Rightarrow> None | Some d \<Rightarrow> Some (10 * v + d)))"
  by (induction xs arbitrary: a) (auto split: option.splits)

lemma read_digits_str_nat: "read_digits 0 (str_nat n) = Some n"
proof (induction n rule: str_nat.induct)
  case (1 n)
  show ?case
  proof (cases "n < 10")
    case True
    then show ?thesis by (subst str_nat.simps) (simp add: digit_val_digit)
  next
    case False
    then have ih: "read_digits 0 (str_nat (n div 10)) = Some (n div 10)"
      using "1.IH" by simp
    have "str_nat n = str_nat (n div 10) @ [digit_char (n mod 10)]"
      using False by (subst str_nat.simps) simp
    then show ?thesis
      by (simp add: read_digits_snoc ih digit_val_digit)
  qed
qed

lemma str_nat_nonempty: "str_nat n \<noteq> []"
  by (subst str_nat.simps) simp

lemma read_nat_str_nat: "read_nat (str_nat n) = Some n"
  by (simp add: read_nat_def str_nat_nonempty read_digits_str_nat)

lemma digit_char_ascii: "d < 10 \<Longrightarrow> utf8_char (digit_char d) = [digit_char d]"
  by (simp add: utf8_char_def of_char_digit)

lemma digit_char_not_CR: "d < 10 \<Longrightarrow> digit_char d \<noteq> CR"
proof
  assume d: "d < 10" and "digit_char d = CR"
  then have "(of_char (digit_char d) :: nat) = of_char CR" by simp
  with d show False by (simp add: of_char_digit CR_def)
qed

lemma utf8_encode_append: "utf8_encode (a @ b) = utf8_encode a @ utf8_encode b"
  by (simp add: utf8_encode_def)

lemma utf8_encode_Cons: "utf8_encode (c # s) = utf8_char c @ utf8_encode s"
  by (simp add: utf8_encode_def)

lemma utf8_encode_Nil: "utf8_encode [] = []"
  by (simp add: utf8_encode_def)

lemma utf8_str_nat: "utf8_encode (str_nat n) = str_nat n"
proof (induction n rule: str_nat.induct)
  case (1 n)
  show ?case
  proof (cases "n < 10")
    case True
    then show ?thesis
      by (subst (1 2) str_nat.simps) (simp add: utf8_encode_Cons utf8_encode_Nil digit_char_ascii)
  next
    case False
    then have ih: "utf8_encode (str_nat (n div 10)) = str_nat (n div 10)"
      using "1.IH" by simp
    have eq: "str_nat n = str_nat (n div 10) @ [digit_char (n mod 10)]"
      using False by (subst str_nat.simps) simp
    show ?thesis
      by (simp only: eq utf8_encode_append ih)
         (simp add: utf8_encode_Cons utf8_encode_Nil digit_char_ascii)
  qed
qed

lemma str_nat_no_CR: "CR \<notin> set (str_nat n)"
proof (induction n rule: str_nat.induct)
  case (1 n)
  show ?case
  proof (cases "n < 10")
    case True
    then show ?thesis using digit_char_not_CR [of n] by (subst str_nat.simps) auto
  next
    case False
    then have ih: "CR \<notin> set (str_nat (n div 10))"
      using "1.IH" by simp
    have eq: "str_nat n = str_nat (n div 10) @ [digit_char (n mod 10)]"
      using False by (subst str_nat.simps) simp
    show ?thesis
      using ih digit_char_not_CR [of "n mod 10"] by (simp only: eq) auto
  qed
qed

lemma utf8_char_no_CR: "c \<noteq> CR \<Longrightarrow> CR \<notin> set (utf8_char c)"
proof -
  assume c: "c \<noteq> CR"
  let ?n = "of_char c :: nat"
  have n: "?n < 256" by simp
  have a: "char_of (192 + ?n div 64) \<noteq> CR"
  proof
    assume "char_of (192 + ?n div 64) = CR"
    then have "(of_char (char_of (192 + ?n div 64)) :: nat) = of_char CR" by simp
    then have "(192 + ?n div 64) mod 256 = 13" by (simp add: CR_def)
    moreover have "?n div 64 < 4" using n by arith
    ultimately show False by simp
  qed
  have b: "char_of (128 + ?n mod 64) \<noteq> CR"
  proof
    assume "char_of (128 + ?n mod 64) = CR"
    then have "(of_char (char_of (128 + ?n mod 64)) :: nat) = of_char CR" by simp
    then have "(128 + ?n mod 64) mod 256 = 13" by (simp add: CR_def)
    moreover have "?n mod 64 < 64" by simp
    ultimately show False by simp
  qed
  show ?thesis using a b c by (simp add: utf8_char_def Let_def)
qed

lemma utf8_encode_no_CR: "CR \<notin> set s \<Longrightarrow> CR \<notin> set (utf8_encode s)"
proof (induction s)
  case Nil
  show ?case by (simp add: utf8_encode_Nil)
next
  case (Cons c s)
  then have "c \<noteq> CR" and "CR \<notin> set (utf8_encode s)" by auto
  then show ?case using utf8_char_no_CR [of c] by (simp add: utf8_encode_Cons)
qed


lemma utf8_encode_nonempty: "s \<noteq> [] \<Longrightarrow> utf8_encode s \<noteq> []"
  by (cases s) (simp_all add: utf8_encode_Cons utf8_char_def Let_def)

lemma utf8_encode_CRLF: "utf8_encode CRLF = CRLF"
  by (simp add: utf8_encode_Cons utf8_encode_Nil utf8_char_def CRLF_def CR_def LF_def)

lemma utf8_encode_join:
  "utf8_encode (join_str CRLF ls) = join_str CRLF (map utf8_encode ls)"
  by (induction CRLF ls rule: join_str.induct)
     (simp_all add: utf8_encode_Nil utf8_encode_append utf8_encode_CRLF)

lemma join_str_snoc:
  "ls \<noteq> [] \<Longrightarrow> join_str sep (ls @ [l]) = join_str sep ls @ sep @ l"
  by (induction sep ls rule: join_str.induct) simp_all

lemma split_head_skip:
  "CR \<notin> set l \<Longrightarrow>
   split_head (l @ r) = (case split_head r of None \<Rightarrow> None | Some (h, b) \<Rightarrow> Some (l @ h, b))"
  by (induction l) (auto simp: CRLF_def split: option.splits)

lemma split_head_end: "split_head (CRLF @ CRLF @ body) = Some ([], body)"
  by (simp add: CRLF_def)

lemma split_head_line:
  assumes "l \<noteq> []" and "CR \<notin> set l"
  shows "split_head (CRLF @ l @ r) =
           (case split_head r of None \<Rightarrow> None | Some (h, b) \<Rightarrow> Some (CRLF @ l @ h, b))"
proof -
  from assms obtain x xs where l: "l = x # xs" and x: "x \<noteq> CR"
    by (cases l) auto
  have "CR \<notin> set (LF # l)" using assms by (simp add: CR_def LF_def)
  then have skip: "split_head ((LF # l) @ r) =
      (case split_head r of None \<Rightarrow> None | Some (h, b) \<Rightarrow> Some ((LF # l) @ h, b))"
    by (rule split_head_skip)
  have "split_head (CRLF @ l @ r) =
      (case split_head ((LF # l) @ r) of None \<Rightarrow> None | Some (h, b) \<Rightarrow> Some (CR # h, b))"
    using x by (simp add: CRLF_def l)
  then show ?thesis
    by (simp only: skip) (simp add: CRLF_def split: option.splits)
qed

lemma split_head_more_lines:
  "ls \<noteq> [] \<Longrightarrow> \<forall>l\<in>set ls. l \<noteq> [] \<and> CR \<notin> set l \<Longrightarrow>
   split_head (CRLF @ join_str CRLF ls @ CRLF @ CRLF @ body) =
     Some (CRLF @ join_str CRLF ls, body)"
proof (induction CRLF ls rule: join_str.induct)
  case 1
  then show ?case by simp
next
  case (2 p)
  then show ?case by (simp add: split_head_line split_head_end)
next
  case (3 p q ps)
  then have ih: "split_head (CRLF @ join_str CRLF (q # ps) @ CRLF @ CRLF @ body) =
      Some (CRLF @ join_str CRLF (q # ps), body)"
    by simp
  have p: "p \<noteq> []" "CR \<notin> set p" using "3.prems" by simp_all
  have "split_head (CRLF @ p @ (CRLF @ join_str CRLF (q # ps) @ CRLF @ CRLF @ body)) =
      Some (CRLF @ p @ CRLF @ join_str CRLF (q # ps), body)"
    by (simp only: split_head_line [OF p] ih) simp
  then show ?case by simp
qed

lemma split_head_lines:
  assumes "\<forall>l\<in>set (p # ps). l \<noteq> [] \<and> CR \<notin> set l"
  shows "split_head (join_str CRLF (p # ps) @ CRLF @ CRLF @ body) =
           Some (join_str CRLF (p # ps), body)"
proof (cases ps)
  case Nil
  then show ?thesis using assms by (simp add: split_head_skip split_head_end)
next
  case (Cons q qs)
  have p: "CR \<notin> set p" using assms by simp
  have rest: "\<forall>l\<in>set (q # qs). l \<noteq> [] \<and> CR \<notin> set l" using assms Cons by simp
  have "split_head (p @ (CRLF @ join_str CRLF (q # qs) @ CRLF @ CRLF @ body)) =
      Some (p @ CRLF @ join_str CRLF (q # qs), body)"
    using split_head_more_lines [OF _ rest, of body]
    by (simp add: split_head_skip [OF p])
  then show ?thesis using Cons by simp
qed

lemma split_crlf_plain: "CR \<notin> set l \<Longrightarrow> split_crlf l = [l]"
  by (induction l) auto

lemma split_crlf_line: "CR \<notin> set l \<Longrightarrow> split_crlf (l @ CRLF @ r) = l # split_crlf r"
  by (induction l) (auto simp: CRLF_def)

lemma split_crlf_join:
  "ls \<noteq> [] \<Longrightarrow> \<forall>l\<in>set ls. CR \<notin> set l \<Longrightarrow> split_crlf (join_str CRLF ls) = ls"
  by (induction CRLF ls rule: join_str.induct)
     (simp_all add: split_crlf_plain split_crlf_line)


lemma str_int_no_CR: "CR \<notin> set (str_int i)"
proof -
  have "CHR ''-'' \<noteq> CR" by (simp add: CR_def)
  then show ?thesis by (simp add: str_int_def str_nat_no_CR)
qed

lemma reason_phrase_no_CR: "CR \<notin> set (reason_phrase code)"
  by (simp add: reason_phrase_def CR_def)

lemma head_block_lines:
  "head_block date code body ct =
     [utf8_encode (''HTTP/1.1 '' @ str_int code @ '' '' @ reason_phrase code),
      utf8_encode (''Date: '' @ date),
      utf8_encode (''Server: '' @ SERVER_NAME),
      utf8_encode (''Content-Type: '' @ ct),
      utf8_encode (''Content-Length: '' @ str_nat (length body))]"
  by (simp add: head_block_def header_lines_def)

lemma response_bytes_block:
  "response_bytes date code body ct =
     join_str CRLF (head_block date code body ct) @ CRLF @ CRLF @ body"
proof -
  have "header_lines date code body ct = butlast (header_lines date code body ct) @ [CRLF]"
    by (simp add: header_lines_def)
  then have "join_str CRLF (map utf8_encode (header_lines date code body ct)) =
      join_str CRLF (head_block date code body ct @ [utf8_encode CRLF])"
    by (simp add: head_block_def header_lines_def)
  also have "\<dots> = join_str CRLF (head_block date code body ct) @ CRLF @ CRLF"
    by (subst join_str_snoc) (simp_all add: head_block_lines utf8_encode_CRLF)
  finally show ?thesis by (simp add: response_bytes_def utf8_encode_join)
qed

lemma head_block_ok:
  assumes "CR \<notin> set date" and "CR \<notin> set ct"
  shows "\<forall>l\<in>set (head_block date code body ct). l \<noteq> [] \<and> CR \<notin> set l"
proof -
  have ne: "\<forall>l\<in>set (head_block date code body ct). l \<noteq> []"
    by (simp add: head_block_lines utf8_encode_nonempty)
  have "\<forall>l\<in>set (butlast (header_lines date code body ct)). CR \<notin> set l"
    using assms
    by (simp add: header_lines_def str_int_no_CR reason_phrase_no_CR str_nat_no_CR
          SERVER_NAME_def) (simp add: CR_def)
  then have "\<forall>l\<in>set (head_block date code body ct). CR \<notin> set l"
    by (simp add: head_block_def utf8_encode_no_CR)
  with ne show ?thesis by blast
qed

lemma split_head_response:
  assumes "CR \<notin> set date" and "CR \<notin> set ct"
  shows "split_head (response_bytes date code body ct) =
           Some (join_str CRLF (head_block date code body ct), body)"
proof -
  obtain p ps where ps: "head_block date code body ct = p # ps"
    by (simp add: head_block_lines)
  have "\<forall>l\<in>set (p # ps). l \<noteq> [] \<and> CR \<notin> set l"
    using head_block_ok [OF assms, of code body] ps by simp
  then show ?thesis
    unfolding response_bytes_block ps by (rule split_head_lines)
qed

lemma head_lines_response:
  assumes "CR \<notin> set date" and "CR \<notin> set ct"
  shows "head_lines (response_bytes date code body ct) = head_block date code body ct"
proof -
  have "\<forall>l\<in>set (head_block date code body ct). CR \<notin> set l"
    using head_block_ok [OF assms] by blast
  moreover have "head_block date code body ct \<noteq> []"
    by (simp add: head_block_lines)
  ultimately show ?thesis
    by (simp add: head_lines_def split_head_response [OF assms] split_crlf_join)
qed

lemma body_of_response:
  "CR \<notin> set date \<Longrightarrow> CR \<notin> set ct \<Longrightarrow> body_of (response_bytes date code body ct) = Some body"
  by (simp add: body_of_def split_head_response)

lemma utf8_encode_ascii_Cons:
  "(of_char c :: nat) < 128 \<Longrightarrow> utf8_encode (c # s) = c # utf8_encode s"
  by (simp add: utf8_encode_Cons utf8_char_def)

lemma content_length_response:
  assumes "CR \<notin> set date" and "CR \<notin> set ct"
  shows "content_length (response_bytes date code body ct) = Some (length body)"
  by (simp add: content_length_def header_field_def head_lines_response [OF assms]
        head_block_lines utf8_encode_ascii_Cons utf8_str_nat read_nat_str_nat)

lemma content_type_response:
  assumes "CR \<notin> set date" and "CR \<notin> set ct"
  shows "header_field ''Content-Type'' (response_bytes date code body ct) = Some (utf8_encode ct)"
  by (simp add: header_field_def head_lines_response [OF assms]
        head_block_lines utf8_encode_ascii_Cons)

subsection \<open>Socket operations\<close>

lemma sendall_sent: "sent (snd (sendall p w)) = sent w @ [p]"
  by (simp add: sendall_def Let_def split: list.splits send_result.splits)

lemma sendall_frame:
  "is_closed (snd (sendall p w)) = is_closed w"
  "fs_calls (snd (sendall p w)) = fs_calls w"
  "close_raises (snd (sendall p w)) = close_raises w"
  "inbox (snd (sendall p w)) = inbox w"
  by (simp_all add: sendall_def Let_def split: list.splits send_result.splits)

lemma sendall_ok:
  "send_succeeds w \<Longrightarrow> fst (sendall p w) = Inr () \<and> wire (snd (sendall p w)) = wire w @ p"
  by (simp add: sendall_def send_succeeds_def Let_def split: list.splits send_result.splits)

lemma sendall_fails:
  "\<not> send_succeeds w \<Longrightarrow> fst (sendall p w) = Inl OSError"
  by (simp add: sendall_def send_succeeds_def Let_def split: list.splits send_result.splits)

lemma sendall_closed_wire: "is_closed w \<Longrightarrow> wire (snd (sendall p w)) = wire w"
  by (simp add: sendall_def Let_def)

lemma close_closed: "is_closed (snd (close w))"
  by (simp add: close_def)

lemma close_frame:
  "sent (snd (close w)) = sent w"
  "wire (snd (close w)) = wire w"
  "fs_calls (snd (close w)) = fs_calls w"
  by (simp_all add: close_def)

lemma send_response_sent:
  "sent (snd (send_response e code (Bytes b) ct w)) =
     sent w @ [response_bytes (http_date e (length (sent w))) code b ct]"
  by (simp add: send_response_def sendall_sent)

lemma send_response_frame:
  "is_closed (snd (send_response e code body ct w)) = is_closed w"
  "fs_calls (snd (send_response e code body ct w)) = fs_calls w"
  by (simp_all add: send_response_def sendall_frame Let_def)

lemma recv_request_frame:
  "sent (snd (recv_request w)) = sent w"
  "wire (snd (recv_request w)) = wire w"
  "is_closed (snd (recv_request w)) = is_closed w"
  "fs_calls (snd (recv_request w)) = fs_calls w"
  "send_script (snd (recv_request w)) = send_script w"
  "close_raises (snd (recv_request w)) = close_raises w"
  by (simp_all add: recv_request_def split: prod.splits option.splits)

section \<open>The handler, branch by branch\<close>

subsection \<open>What the handler does after the body of the try block\<close>

lemma send_response_result:
  "fst (send_response e code body ct w) = (if send_succeeds w then Inr () else Inl OSError)"
  by (simp add: send_response_def sendall_ok sendall_fails Let_def)

lemma send_response_wire:
  "send_succeeds w \<Longrightarrow>
   wire (snd (send_response e code (Bytes b) ct w)) =
     wire w @ response_bytes (http_date e (length (sent w))) code b ct"
  by (simp add: send_response_def sendall_ok)

lemma send_response_closed_wire:
  "is_closed w \<Longrightarrow> wire (snd (send_response e code body ct w)) = wire w"
  by (simp add: send_response_def sendall_closed_wire Let_def)

lemma same_socket_send_succeeds: "same_socket w w' \<Longrightarrow> send_succeeds w' = send_succeeds w"
  by (simp add: same_socket_def send_succeeds_def)

lemma same_socket_recv: "same_socket w (snd (recv_request w))"
  by (simp add: same_socket_def recv_request_frame)

lemma run_is_closed: "is_closed (run e w)"
proof (cases "run_body e w")
  case (Pair r w1)
  then show ?thesis by (cases r) (simp_all add: run_def close_closed)
qed

lemma run_respond:
  assumes body: "run_body e w = send_response e code (Bytes b) ct w'"
    and same: "same_socket w w'"
  shows "sent (run e w) =
           sent w @ response_bytes (http_date e (length (sent w))) code b ct #
             (if send_succeeds w then []
              else [response_bytes (http_date e (Suc (length (sent w)))) 500
                      ''Internal Server Error'' ''text/plain''])"
    and "send_succeeds w \<Longrightarrow>
           wire (run e w) = wire w @ response_bytes (http_date e (length (sent w))) code b ct"
    and "fs_calls (run e w) = fs_calls w'"
proof -
  obtain r w2 where rw: "send_response e code (Bytes b) ct w' = (r, w2)"
    by (cases "send_response e code (Bytes b) ct w'")
  have ok: "send_succeeds w' = send_succeeds w"
    using same by (rule same_socket_send_succeeds)
  have eqs: "sent w' = sent w" "wire w' = wire w"
    using same by (simp_all add: same_socket_def)
  have r: "r = (if send_succeeds w then Inr () else Inl OSError)"
    using send_response_result [of e code "Bytes b" ct w'] rw ok by simp
  have s2: "sent w2 = sent w @ [response_bytes (http_date e (length (sent w))) code b ct]"
    using send_response_sent [of e code b ct w'] rw eqs by simp
  have f2: "fs_calls w2 = fs_calls w'"
    using send_response_frame(2) [of e code "Bytes b" ct w'] rw by simp
  show "sent (run e w) =
           sent w @ response_bytes (http_date e (length (sent w))) code b ct #
             (if send_succeeds w then []
              else [response_bytes (http_date e (Suc (length (sent w)))) 500
                      ''Internal Server Error'' ''text/plain''])"
    using body rw r s2 by (simp add: run_def close_frame send_response_sent)
  show "fs_calls (run e w) = fs_calls w'"
    using body rw r f2 by (simp add: run_def close_frame send_response_frame)
  show "wire (run e w) = wire w @ response_bytes (http_date e (length (sent w))) code b ct"
    if "send_succeeds w"
    using body rw r that ok eqs send_response_wire [of w' e code b ct]
    by (simp add: run_def close_frame)
qed

lemma run_raise:
  assumes body: "run_body e w = (Inl ex, w')"
    and same: "same_socket w w'"
  shows "sent (run e w) =
           sent w @ [response_bytes (http_date e (length (sent w))) 500
                       ''Internal Server Error'' ''text/plain'']"
    and "send_succeeds w \<Longrightarrow>
           wire (run e w) = wire w @ response_bytes (http_date e (length (sent w))) 500
                       ''Internal Server Error'' ''text/plain''"
    and "fs_calls (run e w) = fs_calls w'"
proof -
  have ok: "send_succeeds w' = send_succeeds w"
    using same by (rule same_socket_send_succeeds)
  have eqs: "sent w' = sent w" "wire w' = wire w"
    using same by (simp_all add: same_socket_def)
  show "sent (run e w) =
           sent w @ [response_bytes (http_date e (length (sent w))) 500
                       ''Internal Server Error'' ''text/plain'']"
    using body eqs by (simp add: run_def close_frame send_response_sent)
  show "fs_calls (run e w) = fs_calls w'"
    using body by (simp add: run_def close_frame send_response_frame)
  show "wire (run e w) = wire w @ response_bytes (http_date e (length (sent w))) 500
                       ''Internal Server Error'' ''text/plain''"
    if "send_succeeds w"
    using body that ok eqs send_response_wire [of w' e 500 "''Internal Server Error''"]
    by (simp add: run_def close_frame)
qed

subsection \<open>The branches of the body\<close>

lemma parse_request_line_empty: "parse_request_line [] = Inl (ValueError ''Empty request'')"
  by (simp add: parse_request_line_def Let_def)

lemma parse_request_line_malformed:
  assumes "hd (split_crlf rq) = [] \<or> length (split_ws (hd (split_crlf rq))) < 3"
  shows "\<exists>msg. parse_request_line rq = Inl (ValueError msg)"
  using assms by (auto simp: parse_request_line_def Let_def)

lemma run_body_silent:
  assumes "fst (recv_request w) = None \<or> fst (recv_request w) = Some []"
  shows "run_body e w = close (snd (recv_request w))"
  using assms by (cases "recv_request w") (auto simp: run_body_def)

lemma run_body_malformed:
  assumes "fst (recv_request w) = Some rq" and "rq \<noteq> []"
    and "parse_request_line rq = Inl ex"
  shows "run_body e w = (Inl ex, snd (recv_request w))"
  using assms by (cases "recv_request w") (simp add: run_body_def)

lemma run_body_not_get:
  assumes "fst (recv_request w) = Some rq"
    and "parse_request_line rq = Inr (method, path, version)"
    and "method \<noteq> ''GET''"
  shows "run_body e w =
           send_response e 405 (Bytes ''Method Not Allowed'') ''text/plain''
             (snd (recv_request w))"
proof -
  have "rq \<noteq> []" using assms(2) by (auto simp: parse_request_line_empty)
  then show ?thesis using assms by (cases "recv_request w") (simp add: run_body_def)
qed

lemma serve_file_regular:
  assumes "fs e p = Some (RegularFile content)"
  shows "serve_file e p w =
           send_response e 200 (Bytes content) (mime_or_default e p)
             (w\<lparr>fs_calls := fs_calls w @ [Exists p, Open p]\<rparr>)"
  using assms by (simp add: serve_file_def path_exists_def read_file_def)

lemma serve_file_missing:
  assumes "fs e p = None"
  shows "serve_file e p w =
           send_response e 404 (Bytes ''Not Found'') ''text/plain''
             (w\<lparr>fs_calls := fs_calls w @ [Exists p]\<rparr>)"
  using assms by (simp add: serve_file_def path_exists_def)

lemma serve_file_unreadable:
  assumes "fs e p = Some Directory \<or> fs e p = Some Unreadable"
  shows "serve_file e p w = (Inl OSError, w\<lparr>fs_calls := fs_calls w @ [Exists p, Open p]\<rparr>)"
  using assms by (auto simp: serve_file_def path_exists_def read_file_def)

lemma run_body_get:
  assumes "fst (recv_request w) = Some rq"
    and "parse_request_line rq = Inr (''GET'', target, version)"
  shows "run_body e w =
     (if \<not> startswith (resolve (docroot e) target) (abspath (cwd e) (docroot e))
      then send_response e 404 (Bytes ''Not Found'') ''text/plain'' (snd (recv_request w))
      else if fs e (resolve (docroot e) target) = Some Directory
      then (if fs e (path_join (resolve (docroot e) target) ''index.html'') \<noteq> None
            then serve_file e (path_join (resolve (docroot e) target) ''index.html'')
                   ((snd (recv_request w))\<lparr>fs_calls := fs_calls w @
                      [IsDir (resolve (docroot e) target),
                       Exists (path_join (resolve (docroot e) target) ''index.html'')]\<rparr>)
            else send_response e 404 (Bytes ''Not Found'') ''text/plain''
                   ((snd (recv_request w))\<lparr>fs_calls := fs_calls w @
                      [IsDir (resolve (docroot e) target),
                       Exists (path_join (resolve (docroot e) target) ''index.html'')]\<rparr>))
      else serve_file e (resolve (docroot e) target)
             ((snd (recv_request w))\<lparr>fs_calls := fs_calls w @
                [IsDir (resolve (docroot e) target)]\<rparr>))"
proof -
  have ne: "rq \<noteq> []" using assms(2) by (auto simp: parse_request_line_empty)
  obtain w1 where w1: "recv_request w = (Some rq, w1)"
    using assms(1) by (cases "recv_request w") simp
  have f: "fs_calls w1 = fs_calls w"
    using recv_request_frame(4) [of w] w1 by simp
  show ?thesis
    using ne assms(2) w1 f by (simp add: run_body_def Let_def isdir_def path_exists_def)
qed

lemma run_sent_after_raise:
  assumes "run_body e w = (Inl ex, w')"
  shows "sent (run e w) =
           sent w' @ [response_bytes (http_date e (length (sent w'))) 500
                        ''Internal Server Error'' ''text/plain'']"
  using assms by (simp add: run_def close_frame send_response_sent)

lemma run_sent_after_return:
  assumes "run_body e w = (Inr u, w')"
  shows "sent (run e w) = sent w'"
  using assms by (simp add: run_def close_frame)

lemma run_body_shape:
  "(\<exists>w'. run_body e w = close w' \<and> same_socket w w') \<or>
   (\<exists>ex w'. run_body e w = (Inl ex, w') \<and> same_socket w w') \<or>
   (\<exists>code b ct w'. run_body e w = send_response e code (Bytes b) ct w' \<and>
        same_socket w w' \<and> handler_response e code b ct)"
proof (cases "fst (recv_request w)")
  case None
  then show ?thesis using run_body_silent [of w e] same_socket_recv [of w] by blast
next
  case (Some rq)
  note recv = this
  show ?thesis
  proof (cases "rq = []")
    case True
    then show ?thesis using recv run_body_silent [of w e] same_socket_recv [of w] by blast
  next
    case False
    note ne = this
    show ?thesis
    proof (cases "parse_request_line rq")
      case (Inl ex)
      then show ?thesis
        using run_body_malformed [OF recv ne, of ex e] same_socket_recv [of w] by blast
    next
      case (Inr triple)
      then obtain meth tgt ver where
        parse: "parse_request_line rq = Inr (meth, tgt, ver)"
        by (cases triple) auto
      show ?thesis
      proof (cases "meth = ''GET''")
        case False
        have "handler_response e 405 ''Method Not Allowed'' ''text/plain''"
          by (simp add: handler_response_def)
        then show ?thesis
          using run_body_not_get [OF recv parse False, of e] same_socket_recv [of w] by blast
      next
        case True
        let ?full = "resolve (docroot e) tgt"
        let ?index = "path_join ?full ''index.html''"
        let ?w1 = "snd (recv_request w)"
        note get = run_body_get [OF recv parse [unfolded True], of e]
        have nf: "handler_response e 404 ''Not Found'' ''text/plain''"
          by (simp add: handler_response_def)
        have s1: "\<And>cs. same_socket w (?w1\<lparr>fs_calls := cs\<rparr>)"
          using same_socket_recv [of w] by (simp add: same_socket_def)
        have serve: "\<And>p cs.
          (\<exists>ex w'. serve_file e p (?w1\<lparr>fs_calls := cs\<rparr>) = (Inl ex, w') \<and> same_socket w w') \<or>
          (\<exists>code b ct w'. serve_file e p (?w1\<lparr>fs_calls := cs\<rparr>) =
               send_response e code (Bytes b) ct w' \<and>
               same_socket w w' \<and> handler_response e code b ct)"
        proof -
          fix p cs
          let ?w = "?w1\<lparr>fs_calls := cs\<rparr>"
          show "(\<exists>ex w'. serve_file e p ?w = (Inl ex, w') \<and> same_socket w w') \<or>
            (\<exists>code b ct w'. serve_file e p ?w = send_response e code (Bytes b) ct w' \<and>
               same_socket w w' \<and> handler_response e code b ct)"
          proof (cases "fs e p")
            case None
            show ?thesis
              using serve_file_missing [OF None, of ?w] nf s1 by (intro disjI2) force
          next
            case (Some node)
            show ?thesis
            proof (cases node)
              case (RegularFile content)
              then have f: "fs e p = Some (RegularFile content)" using Some by simp
              have "handler_response e 200 content (mime_or_default e p)"
                using f by (auto simp: handler_response_def)
              then show ?thesis
                using serve_file_regular [OF f, of ?w] s1 by (intro disjI2) force
            next
              case Directory
              then have "fs e p = Some Directory \<or> fs e p = Some Unreadable"
                using Some by simp
              from serve_file_unreadable [OF this, of ?w] show ?thesis
                using s1 by (intro disjI1) force
            next
              case Unreadable
              then have "fs e p = Some Directory \<or> fs e p = Some Unreadable"
                using Some by simp
              from serve_file_unreadable [OF this, of ?w] show ?thesis
                using s1 by (intro disjI1) force
            qed
          qed
        qed
        consider
          (outside) "\<not> startswith ?full (abspath (cwd e) (docroot e))"
          | (noindex) "startswith ?full (abspath (cwd e) (docroot e))"
              "fs e ?full = Some Directory" "fs e ?index = None"
          | (index) "startswith ?full (abspath (cwd e) (docroot e))"
              "fs e ?full = Some Directory" "fs e ?index \<noteq> None"
          | (plain) "startswith ?full (abspath (cwd e) (docroot e))"
              "fs e ?full \<noteq> Some Directory"
          by blast
        then show ?thesis
        proof cases
          case outside
          then have "run_body e w =
              send_response e 404 (Bytes ''Not Found'') ''text/plain'' ?w1"
            using get by simp
          then show ?thesis using nf same_socket_recv [of w] by blast
        next
          case noindex
          then have "run_body e w =
              send_response e 404 (Bytes ''Not Found'') ''text/plain''
                (?w1\<lparr>fs_calls := fs_calls w @ [IsDir ?full, Exists ?index]\<rparr>)"
            using get by simp
          then show ?thesis using nf s1 by blast
        next
          case index
          then have "run_body e w =
              serve_file e ?index (?w1\<lparr>fs_calls := fs_calls w @ [IsDir ?full, Exists ?index]\<rparr>)"
            using get by simp
          then show ?thesis
            using serve [of ?index "fs_calls w @ [IsDir ?full, Exists ?index]"] by auto
        next
          case plain
          then have "run_body e w =
              serve_file e ?full (?w1\<lparr>fs_calls := fs_calls w @ [IsDir ?full]\<rparr>)"
            using get by simp
          then show ?thesis
            using serve [of ?full "fs_calls w @ [IsDir ?full]"] by auto
        qed
      qed
    qed
  qed
qed

subsection \<open>Every message of the handler\<close>

lemma str_nat_chars:
  "c \<in> set (str_nat n) \<Longrightarrow> 48 \<le> (of_char c :: nat) \<and> (of_char c :: nat) \<le> 57"
proof (induction n rule: str_nat.induct)
  case (1 n)
  show ?case
  proof (cases "n < 10")
    case True
    then have "str_nat n = [digit_char n]" by (subst str_nat.simps) simp
    with "1.prems" True show ?thesis by (simp add: of_char_digit)
  next
    case False
    then have eq: "str_nat n = str_nat (n div 10) @ [digit_char (n mod 10)]"
      by (subst str_nat.simps) simp
    from "1.prems" have "c \<in> set (str_nat (n div 10)) \<or> c = digit_char (n mod 10)"
      by (auto simp: eq)
    then show ?thesis
    proof
      assume "c \<in> set (str_nat (n div 10))"
      then show ?thesis using "1.IH" False by simp
    next
      assume "c = digit_char (n mod 10)"
      then show ?thesis by (simp add: of_char_digit)
    qed
  qed
qed

lemma str_int_no_space: "CHR '' '' \<notin> set (str_int i)"
proof
  assume a: "CHR '' '' \<in> set (str_int i)"
  then have "CHR '' '' \<in> set (str_nat (nat (- i))) \<or> CHR '' '' \<in> set (str_nat (nat i))"
    by (auto simp: str_int_def split: if_splits)
  then show False using str_nat_chars [of "CHR '' ''"] by auto
qed

lemma utf8_str_int: "utf8_encode (str_int i) = str_int i"
  by (simp add: str_int_def utf8_encode_ascii_Cons utf8_str_nat)

lemma split_char_token:
  "sep \<notin> set t \<Longrightarrow> split_char sep (t @ sep # r) = t # split_char sep r"
  by (induction t) auto

lemma status_of_response:
  assumes "CR \<notin> set date" and "CR \<notin> set ct"
  shows "status_of (response_bytes date code body ct) = Some (str_int code)"
proof -
  have line: "utf8_encode (''HTTP/1.1 '' @ str_int code @ '' '' @ reason_phrase code) =
      ''HTTP/1.1'' @ CHR '' '' # (str_int code @ CHR '' '' # utf8_encode (reason_phrase code))"
    by (simp add: utf8_encode_ascii_Cons utf8_encode_append utf8_str_int)
  have "CHR '' '' \<notin> set ''HTTP/1.1''" by simp
  then have "split_char CHR '' '' (''HTTP/1.1'' @ CHR '' '' #
          (str_int code @ CHR '' '' # utf8_encode (reason_phrase code))) =
        ''HTTP/1.1'' #
          split_char CHR '' '' (str_int code @ CHR '' '' # utf8_encode (reason_phrase code))"
    by (rule split_char_token)
  also have "split_char CHR '' '' (str_int code @ CHR '' '' # utf8_encode (reason_phrase code)) =
        str_int code # split_char CHR '' '' (utf8_encode (reason_phrase code))"
    using str_int_no_space by (rule split_char_token)
  finally have "split_char CHR '' '' (''HTTP/1.1'' @ CHR '' '' #
          (str_int code @ CHR '' '' # utf8_encode (reason_phrase code))) =
        ''HTTP/1.1'' # str_int code # split_char CHR '' '' (utf8_encode (reason_phrase code))" .
  then show ?thesis
    by (simp only: status_of_def head_lines_response [OF assms] head_block_lines line)
       simp
qed

lemma str_int_200: "str_int 200 = ''200''"
  by code_simp

lemma str_int_404: "str_int 404 = ''404''"
  by code_simp

lemma str_int_405: "str_int 405 = ''405''"
  by code_simp

lemma str_int_500: "str_int 500 = ''500''"
  by code_simp

lemmas status_strings = str_int_200 str_int_404 str_int_405 str_int_500

lemma text_plain_single_line: "CR \<notin> set ''text/plain''"
  by (simp add: CR_def)

lemma mime_or_default_single_line:
  "single_line_env e \<Longrightarrow> CR \<notin> set (mime_or_default e p)"
  by (auto simp: single_line_env_def mime_or_default_def CR_def split: option.splits)

lemma handler_response_single_line:
  assumes "single_line_env e" and "handler_response e code b ct"
  shows "CR \<notin> set ct"
proof -
  from assms(2) have "ct = ''text/plain'' \<or> (\<exists>p. ct = mime_or_default e p)"
    by (auto simp: handler_response_def)
  then show ?thesis
    using text_plain_single_line mime_or_default_single_line [OF assms(1)] by blast
qed

lemma run_messages:
  "\<exists>ms. sent (run e w) = sent w @ ms \<and>
     (\<forall>m\<in>set ms. \<exists>n code b ct.
        m = response_bytes (http_date e n) code b ct \<and> handler_response e code b ct)"
proof -
  have h500: "handler_response e 500 ''Internal Server Error'' ''text/plain''"
    by (simp add: handler_response_def)
  from run_body_shape [of e w] consider
    (closing) w' where "run_body e w = close w'" "same_socket w w'"
    | (raised) ex w' where "run_body e w = (Inl ex, w')" "same_socket w w'"
    | (answered) code b ct w' where
        "run_body e w = send_response e code (Bytes b) ct w'"
        "same_socket w w'" "handler_response e code b ct"
    by blast
  then show ?thesis
  proof cases
    case closing
    have s: "sent (snd (close w')) = sent w"
      using closing(2) by (simp add: close_frame same_socket_def)
    show ?thesis
    proof (cases "fst (close w')")
      case (Inl ex)
      then have "run_body e w = (Inl ex, snd (close w'))"
        using closing(1) by (metis prod.collapse)
      from run_sent_after_raise [OF this] show ?thesis
        using s h500 by auto
    next
      case (Inr u)
      then have "run_body e w = (Inr u, snd (close w'))"
        using closing(1) by (metis prod.collapse)
      from run_sent_after_return [OF this] show ?thesis
        using s by simp
    qed
  next
    case raised
    from run_raise(1) [OF raised] show ?thesis using h500 by auto
  next
    case answered
    from run_respond(1) [OF answered(1,2)] show ?thesis
      using h500 answered(3) by (cases "send_succeeds w") auto
  qed
qed


subsection \<open>The sample site\<close>

lemma recv_one_request: "fst (recv_request (one_request line)) = Some (line @ CRLF @ CRLF)"
proof -
  have a: "\<not> contains (CRLF @ CRLF) []" by (simp add: CRLF_def)
  have b: "line @ CRLF @ CRLF \<noteq> []" by (simp add: CRLF_def)
  have c: "recv_loop (line @ CRLF @ CRLF) [] = (Some (line @ CRLF @ CRLF), [])"
    by (subst recv_loop.simps) simp
  have "recv_loop [] [Chunk (line @ CRLF @ CRLF)] = (Some (line @ CRLF @ CRLF), [])"
    using a b c by (subst recv_loop.simps) (simp del: append_assoc)
  then show ?thesis
    using b by (simp add: recv_request_def one_request_def accepted_def latin1_decode_def)
qed

lemma one_request_fresh:
  "sent (one_request line) = []" "wire (one_request line) = []"
  "fs_calls (one_request line) = []" "send_succeeds (one_request line)"
  by (simp_all add: one_request_def accepted_def send_succeeds_def)

lemma example_env_fields:
  "docroot example_env = ''/srv/www''" "cwd example_env = ''/''"
  "http_date example_env n = ''Wed, 04 Nov 2026 12:00:00 GMT''"
  by (simp_all add: example_env_def)

lemma example_env_single_line: "single_line_env example_env"
  by (simp add: single_line_env_def example_env_def CR_def)

lemma example_root: "abspath ''/'' ''/srv/www'' = ''/srv/www''"
  by code_simp

lemma parse_delete:
  "parse_request_line (''DELETE /index.html HTTP/1.1'' @ CRLF @ CRLF) =
     Inr (''DELETE'', ''/index.html'', ''HTTP/1.1'')"
  by code_simp


lemma example_date_single_line: "CR \<notin> set ''Wed, 04 Nov 2026 12:00:00 GMT''"
  by (simp add: CR_def)

lemma example_delete_sent:
  "sent (run example_env (one_request ''DELETE /index.html HTTP/1.1'')) =
     [response_bytes ''Wed, 04 Nov 2026 12:00:00 GMT'' 405 ''Method Not Allowed'' ''text/plain'']"
proof -
  have "''DELETE'' \<noteq> ''GET''" by simp
  note body = run_body_not_get [OF recv_one_request parse_delete this, of example_env]
  from run_respond(1) [OF body same_socket_recv]
  show ?thesis by (simp add: one_request_fresh example_env_fields)
qed


lemma close_result:
  "close w = (if is_closed w \<or> \<not> close_raises w then Inr () else Inl OSError,
              w\<lparr>is_closed := True\<rparr>)"
  by (cases "is_closed w") (simp_all add: close_def)


subsection \<open>The read loop on the script of the socket\<close>

lemma contains_Nil: "contains [] xs"
  by (cases xs) simp_all

lemma contains_append: "contains pat xs \<Longrightarrow> contains pat (xs @ ys)"
proof (induction xs)
  case Nil
  then show ?case by (simp add: contains_Nil)
next
  case (Cons x xs)
  then have "prefix pat (x # xs) \<or> contains pat xs" by simp
  then show ?case
  proof
    assume "prefix pat (x # xs)"
    then have "prefix pat ((x # xs) @ ys)" by (rule prefix_prefix)
    then show ?thesis by simp
  next
    assume "contains pat xs"
    then have "contains pat (xs @ ys)" by (rule Cons.IH)
    then show ?thesis by simp
  qed
qed

lemma recv_loop_zero_bytes:
  assumes "evs = [] \<or> (\<exists>rest. evs = Chunk [] # rest) \<or> (\<exists>rest. evs = Timeout # rest)"
  shows "fst (recv_loop [] evs) = Some []"
proof -
  have "\<not> contains (CRLF @ CRLF) []" by (simp add: CRLF_def)
  then show ?thesis
    using assms by (subst recv_loop.simps) auto
qed

lemma recv_loop_error:
  "\<forall>c\<in>set cs. c \<noteq> [] \<Longrightarrow> \<not> contains (CRLF @ CRLF) (data @ concat cs) \<Longrightarrow>
   recv_loop data (map Chunk cs @ RecvError # rest) = (None, rest)"
proof (induction cs arbitrary: data)
  case Nil
  then show ?case by (subst recv_loop.simps) simp
next
  case (Cons c cs)
  have no: "\<not> contains (CRLF @ CRLF) data"
    using Cons.prems(2) contains_append [of "CRLF @ CRLF" data "concat (c # cs)"] by blast
  have c: "c \<noteq> []" using Cons.prems(1) by simp
  have rest: "\<forall>c\<in>set cs. c \<noteq> []" using Cons.prems(1) by simp
  have later: "\<not> contains (CRLF @ CRLF) ((data @ c) @ concat cs)"
    using Cons.prems(2) by simp
  have "recv_loop data (map Chunk (c # cs) @ RecvError # rest) =
      recv_loop (data @ c) (map Chunk cs @ RecvError # rest)"
    using no c by (subst recv_loop.simps) simp
  then show ?case using Cons.IH [OF rest later] by simp
qed

lemma recv_request_zero_bytes:
  assumes "inbox w = [] \<or> (\<exists>rest. inbox w = Chunk [] # rest) \<or>
           (\<exists>rest. inbox w = Timeout # rest)"
  shows "fst (recv_request w) = Some []"
proof -
  obtain r rest where rr: "recv_loop [] (inbox w) = (r, rest)"
    by (cases "recv_loop [] (inbox w)")
  then have "r = Some []" using recv_loop_zero_bytes [OF assms] by simp
  with rr show ?thesis by (simp add: recv_request_def)
qed

lemma recv_request_error:
  assumes "inbox w = map Chunk cs @ RecvError # rest"
    and "\<forall>c\<in>set cs. c \<noteq> []"
    and "\<not> contains (CRLF @ CRLF) (concat cs)"
  shows "fst (recv_request w) = None"
proof -
  have "recv_loop [] (map Chunk cs @ RecvError # rest) = (None, rest)"
    using assms(2,3) by (intro recv_loop_error) simp_all
  then show ?thesis using assms(1) by (simp add: recv_request_def)
qed

subsection \<open>The branches of a GET\<close>

lemma within_root_startswith: "within_root root p \<Longrightarrow> startswith p root"
  by (auto simp: within_root_def startswith_def split: if_splits dest: append_prefixD)

lemma run_body_outside:
  assumes "fst (recv_request w) = Some rq"
    and "parse_request_line rq = Inr (''GET'', target, version)"
    and "\<not> startswith (resolve (docroot e) target) (abspath (cwd e) (docroot e))"
  shows "run_body e w =
           send_response e 404 (Bytes ''Not Found'') ''text/plain'' (snd (recv_request w))"
  using run_body_get [OF assms(1,2), of e] assms(3) by simp

lemma run_body_regular:
  assumes "fst (recv_request w) = Some rq"
    and "parse_request_line rq = Inr (''GET'', target, version)"
    and "startswith (resolve (docroot e) target) (abspath (cwd e) (docroot e))"
    and "fs e (resolve (docroot e) target) = Some (RegularFile content)"
  shows "run_body e w =
           send_response e 200 (Bytes content) (mime_or_default e (resolve (docroot e) target))
             ((snd (recv_request w))\<lparr>fs_calls := fs_calls w @
                [IsDir (resolve (docroot e) target), Exists (resolve (docroot e) target),
                 Open (resolve (docroot e) target)]\<rparr>)"
  using run_body_get [OF assms(1,2), of e] assms(3,4)
  by (simp add: serve_file_regular)

lemma run_body_unreadable:
  assumes "fst (recv_request w) = Some rq"
    and "parse_request_line rq = Inr (''GET'', target, version)"
    and "startswith (resolve (docroot e) target) (abspath (cwd e) (docroot e))"
    and "fs e (resolve (docroot e) target) = Some Unreadable"
  shows "run_body e w =
           (Inl OSError,
            (snd (recv_request w))\<lparr>fs_calls := fs_calls w @
                [IsDir (resolve (docroot e) target), Exists (resolve (docroot e) target),
                 Open (resolve (docroot e) target)]\<rparr>)"
proof -
  have "fs e (resolve (docroot e) target) = Some Directory \<or>
        fs e (resolve (docroot e) target) = Some Unreadable"
    using assms(4) by simp
  note serve = serve_file_unreadable [OF this]
  show ?thesis
    using run_body_get [OF assms(1,2), of e] assms(3,4) by (simp add: serve)
qed

lemma run_body_index_regular:
  assumes "fst (recv_request w) = Some rq"
    and "parse_request_line rq = Inr (''GET'', target, version)"
    and "startswith (resolve (docroot e) target) (abspath (cwd e) (docroot e))"
    and "fs e (resolve (docroot e) target) = Some Directory"
    and "fs e (path_join (resolve (docroot e) target) ''index.html'') =
           Some (RegularFile content)"
  shows "run_body e w =
           send_response e 200 (Bytes content)
             (mime_or_default e (path_join (resolve (docroot e) target) ''index.html''))
             ((snd (recv_request w))\<lparr>fs_calls := fs_calls w @
                [IsDir (resolve (docroot e) target),
                 Exists (path_join (resolve (docroot e) target) ''index.html''),
                 Exists (path_join (resolve (docroot e) target) ''index.html''),
                 Open (path_join (resolve (docroot e) target) ''index.html'')]\<rparr>)"
  using run_body_get [OF assms(1,2), of e] assms(3,4,5)
  by (simp add: serve_file_regular)

lemma run_body_index_missing:
  assumes "fst (recv_request w) = Some rq"
    and "parse_request_line rq = Inr (''GET'', target, version)"
    and "startswith (resolve (docroot e) target) (abspath (cwd e) (docroot e))"
    and "fs e (resolve (docroot e) target) = Some Directory"
    and "fs e (path_join (resolve (docroot e) target) ''index.html'') = None"
  shows "run_body e w =
           send_response e 404 (Bytes ''Not Found'') ''text/plain''
             ((snd (recv_request w))\<lparr>fs_calls := fs_calls w @
                [IsDir (resolve (docroot e) target),
                 Exists (path_join (resolve (docroot e) target) ''index.html'')]\<rparr>)"
  using run_body_get [OF assms(1,2), of e] assms(3,4,5) by simp

lemma run_body_index_unreadable:
  assumes "fst (recv_request w) = Some rq"
    and "parse_request_line rq = Inr (''GET'', target, version)"
    and "startswith (resolve (docroot e) target) (abspath (cwd e) (docroot e))"
    and "fs e (resolve (docroot e) target) = Some Directory"
    and "fs e (path_join (resolve (docroot e) target) ''index.html'') = Some Directory \<or>
         fs e (path_join (resolve (docroot e) target) ''index.html'') = Some Unreadable"
  shows "run_body e w =
           (Inl OSError,
            (snd (recv_request w))\<lparr>fs_calls := fs_calls w @
                [IsDir (resolve (docroot e) target),
                 Exists (path_join (resolve (docroot e) target) ''index.html''),
                 Exists (path_join (resolve (docroot e) target) ''index.html''),
                 Open (path_join (resolve (docroot e) target) ''index.html'')]\<rparr>)"
proof -
  have ex: "fs e (path_join (resolve (docroot e) target) ''index.html'') \<noteq> None"
    using assms(5) by auto
  show ?thesis
    using run_body_get [OF assms(1,2), of e] assms(3,4) ex
    by (simp add: serve_file_unreadable [OF assms(5)])
qed

lemma same_socket_recv_calls: "same_socket w ((snd (recv_request w))\<lparr>fs_calls := cs\<rparr>)"
  using same_socket_recv [of w] by (simp add: same_socket_def)

subsection \<open>The silent abort\<close>

lemma run_silent:
  assumes "fst (recv_request w) = None \<or> fst (recv_request w) = Some []"
  shows "wire (run e w) = wire w
         \<and> is_closed (run e w)
         \<and> fs_calls (run e w) = fs_calls w
         \<and> (is_closed w \<or> \<not> close_raises w \<longrightarrow> sent (run e w) = sent w)"
proof -
  let ?w1 = "snd (recv_request w)"
  have same: "sent ?w1 = sent w" "wire ?w1 = wire w" "is_closed ?w1 = is_closed w"
    "fs_calls ?w1 = fs_calls w" "close_raises ?w1 = close_raises w"
    by (simp_all add: recv_request_frame)
  have body: "run_body e w = close ?w1"
    using assms by (rule run_body_silent)
  show ?thesis
  proof (cases "is_closed ?w1 \<or> \<not> close_raises ?w1")
    case True
    then have "run_body e w = (Inr (), ?w1\<lparr>is_closed := True\<rparr>)"
      using body by (simp add: close_result)
    then show ?thesis
      using same run_is_closed [of e w] by (simp add: run_def close_frame)
  next
    case False
    then have b: "run_body e w = (Inl OSError, ?w1\<lparr>is_closed := True\<rparr>)"
      using body by (simp add: close_result)
    then have "wire (run e w) = wire w" "fs_calls (run e w) = fs_calls w"
      using same
      by (simp_all add: run_def close_frame send_response_closed_wire send_response_frame)
    then show ?thesis
      using same False run_is_closed [of e w] by simp
  qed
qed

subsection \<open>Path resolution\<close>

lemma lstrip_relative: "\<not> startswith (lstrip CHR ''/'' target) ''/''"
proof (cases "dropWhile (\<lambda>c. c = CHR ''/'') target")
  case Nil
  show ?thesis unfolding lstrip_def startswith_def Nil by simp
next
  case (Cons a rest)
  then have "a \<noteq> CHR ''/''" by (simp add: dropWhile_eq_Cons_conv)
  then show ?thesis unfolding lstrip_def startswith_def Cons by simp
qed

lemma lstrip_one_slash:
  assumes "\<not> startswith target ''//''"
  shows "lstrip CHR ''/'' target = strip_one_slash target"
proof (cases target)
  case Nil
  then show ?thesis by (simp add: lstrip_def strip_one_slash_def startswith_def)
next
  case (Cons c cs)
  show ?thesis
  proof (cases "c = CHR ''/''")
    case False
    with Cons show ?thesis by (simp add: lstrip_def strip_one_slash_def startswith_def)
  next
    case True
    have "dropWhile (\<lambda>c. c = CHR ''/'') cs = cs"
    proof (cases cs)
      case Nil
      then show ?thesis by simp
    next
      case (Cons d ds)
      with assms True \<open>target = c # cs\<close> have "d \<noteq> CHR ''/''"
        by (simp add: startswith_def)
      with Cons show ?thesis by simp
    qed
    with Cons True show ?thesis by (simp add: lstrip_def strip_one_slash_def startswith_def)
  qed
qed

lemma path_join_relative:
  "\<not> startswith b ''/'' \<Longrightarrow>
   path_join a b = (if a = [] \<or> last a = CHR ''/'' then a else a @ ''/'') @ b"
  by (simp add: path_join_def)

lemma path_join_absolute:
  "startswith a ''/'' \<Longrightarrow> \<not> startswith b ''/'' \<Longrightarrow> startswith (path_join a b) ''/''"
  by (cases a) (auto simp: path_join_def startswith_def)

lemma split_char_pieces: "\<forall>p\<in>set (split_char sep s). sep \<notin> set p"
proof (induction s)
  case Nil
  show ?case by simp
next
  case (Cons c s)
  show ?case
  proof (cases "c = sep")
    case True
    with Cons show ?thesis by simp
  next
    case False
    show ?thesis
    proof (cases "split_char sep s")
      case Nil
      with False show ?thesis by simp
    next
      case (Cons l ls)
      with Cons.IH False show ?thesis by auto
    qed
  qed
qed

text \<open>A kept component: not empty, neither \<open>.\<close> nor \<open>..\<close>, and without a slash.\<close>

lemma norm_step_kept:
  assumes "0 < k"
    and "\<forall>p\<in>set new_comps. p \<noteq> [] \<and> p \<noteq> ''.'' \<and> p \<noteq> ''..'' \<and> CHR ''/'' \<notin> set p"
    and "CHR ''/'' \<notin> set part"
  shows "\<forall>p\<in>set (norm_step k new_comps part).
           p \<noteq> [] \<and> p \<noteq> ''.'' \<and> p \<noteq> ''..'' \<and> CHR ''/'' \<notin> set p"
proof -
  have last_ok: "new_comps \<noteq> [] \<Longrightarrow> last new_comps \<noteq> ''..''"
    using assms(2) last_in_set [of new_comps] by blast
  have butlast_ok: "\<forall>p\<in>set (butlast new_comps).
      p \<noteq> [] \<and> p \<noteq> ''.'' \<and> p \<noteq> ''..'' \<and> CHR ''/'' \<notin> set p"
    using assms(2) in_set_butlastD [of _ new_comps] by blast
  consider (skip) "part = [] \<or> part = ''.''"
    | (up) "part = ''..''"
    | (name) "part \<noteq> []" "part \<noteq> ''.''" "part \<noteq> ''..''"
    by blast
  then show ?thesis
  proof cases
    case skip
    then show ?thesis using assms(2) by (auto simp: norm_step_def)
  next
    case up
    have "norm_step k new_comps part = (if new_comps \<noteq> [] then butlast new_comps else new_comps)"
      using up assms(1) last_ok by (auto simp: norm_step_def)
    then show ?thesis using assms(2) butlast_ok by simp
  next
    case name
    then have "norm_step k new_comps part = new_comps @ [part]"
      by (simp add: norm_step_def)
    then show ?thesis using assms(2,3) name by simp
  qed
qed

lemma foldl_norm_step_kept:
  assumes "0 < k"
  shows "\<forall>p\<in>set acc. p \<noteq> [] \<and> p \<noteq> ''.'' \<and> p \<noteq> ''..'' \<and> CHR ''/'' \<notin> set p \<Longrightarrow>
         \<forall>p\<in>set comps. CHR ''/'' \<notin> set p \<Longrightarrow>
         \<forall>p\<in>set (foldl (norm_step k) acc comps).
           p \<noteq> [] \<and> p \<noteq> ''.'' \<and> p \<noteq> ''..'' \<and> CHR ''/'' \<notin> set p"
proof (induction comps arbitrary: acc)
  case Nil
  then show ?case by simp
next
  case (Cons c comps)
  have c: "CHR ''/'' \<notin> set c" using Cons.prems(2) by simp
  have rest: "\<forall>p\<in>set comps. CHR ''/'' \<notin> set p" using Cons.prems(2) by simp
  have step: "\<forall>p\<in>set (norm_step k acc c).
      p \<noteq> [] \<and> p \<noteq> ''.'' \<and> p \<noteq> ''..'' \<and> CHR ''/'' \<notin> set p"
    using assms Cons.prems(1) c by (rule norm_step_kept)
  have "foldl (norm_step k) acc (c # comps) = foldl (norm_step k) (norm_step k acc c) comps"
    by simp
  then show ?case using Cons.IH [OF step rest] by (simp only:)
qed

lemma normpath_absolute:
  assumes "startswith path ''/''"
  shows "\<exists>k parts. (k = 1 \<or> k = 2) \<and>
           normpath path = replicate k CHR ''/'' @ join_str ''/'' parts \<and>
           (\<forall>p\<in>set parts. p \<noteq> [] \<and> p \<noteq> ''.'' \<and> p \<noteq> ''..'' \<and> CHR ''/'' \<notin> set p)"
proof -
  define k :: nat where
    "k = (if startswith path ''//'' \<and> \<not> startswith path ''///'' then 2 else 1)"
  define parts where "parts = foldl (norm_step k) [] (split_char CHR ''/'' path)"
  have k: "k = 1 \<or> k = 2" by (simp add: k_def)
  then have pos: "0 < k" by auto
  have ne: "path \<noteq> []" using assms by (auto simp: startswith_def)
  have start: "\<forall>p\<in>set ([] :: string list).
      p \<noteq> [] \<and> p \<noteq> ''.'' \<and> p \<noteq> ''..'' \<and> CHR ''/'' \<notin> set p"
    by simp
  have kept: "\<forall>p\<in>set parts. p \<noteq> [] \<and> p \<noteq> ''.'' \<and> p \<noteq> ''..'' \<and> CHR ''/'' \<notin> set p"
    unfolding parts_def
    using pos start split_char_pieces [of "CHR ''/''" path]
    by (rule foldl_norm_step_kept)
  have nonempty: "replicate k CHR ''/'' @ join_str ''/'' parts \<noteq> []"
    using pos by (cases k) simp_all
  have "normpath path =
      (let p = replicate k CHR ''/'' @ join_str ''/'' parts in if p = [] then ''.'' else p)"
    unfolding normpath_def k_def parts_def Let_def using ne assms by (simp only: if_False if_True)
  then have "normpath path = replicate k CHR ''/'' @ join_str ''/'' parts"
    using nonempty by (simp only: Let_def if_False)
  with k kept show ?thesis by blast
qed

section \<open>The claims\<close>

text \<open>
  C1. The containment test of the handler compares strings: the resolved path must begin
  with the characters of the document root. A path in a sibling directory whose name
  begins with the name of the root passes it. In the sample site the root is \<open>/srv/www\<close>
  and \<open>/srv/www-secret/key.txt\<close> is not within it, yet the request
  \<open>GET /../www-secret/key.txt\<close> is answered 200 with the contents of that file.
\<close>

theorem sibling_directory_is_served:
  "resolve (docroot example_env) ''/../www-secret/key.txt'' = ''/srv/www-secret/key.txt''
   \<and> \<not> within_root (abspath (cwd example_env) (docroot example_env))
         (resolve (docroot example_env) ''/../www-secret/key.txt'')
   \<and> sent (run example_env (one_request ''GET /../www-secret/key.txt HTTP/1.1'')) =
       [response_bytes ''Wed, 04 Nov 2026 12:00:00 GMT'' 200 ''hunter2''
          ''application/octet-stream'']
   \<and> wire (run example_env (one_request ''GET /../www-secret/key.txt HTTP/1.1'')) =
       response_bytes ''Wed, 04 Nov 2026 12:00:00 GMT'' 200 ''hunter2''
         ''application/octet-stream''
   \<and> fs_calls (run example_env (one_request ''GET /../www-secret/key.txt HTTP/1.1'')) =
       [IsDir ''/srv/www-secret/key.txt'', Exists ''/srv/www-secret/key.txt'',
        Open ''/srv/www-secret/key.txt'']"
proof -
  have parse: "parse_request_line (''GET /../www-secret/key.txt HTTP/1.1'' @ CRLF @ CRLF) =
      Inr (''GET'', ''/../www-secret/key.txt'', ''HTTP/1.1'')"
    by code_simp
  have path: "resolve ''/srv/www'' ''/../www-secret/key.txt'' = ''/srv/www-secret/key.txt''"
    by code_simp
  have full: "resolve (docroot example_env) ''/../www-secret/key.txt'' =
      ''/srv/www-secret/key.txt''"
    by (simp add: example_env_fields path)
  have outside: "\<not> within_root (abspath (cwd example_env) (docroot example_env))
      (resolve (docroot example_env) ''/../www-secret/key.txt'')"
    unfolding example_env_fields path example_root by code_simp
  have passes: "startswith (resolve (docroot example_env) ''/../www-secret/key.txt'')
      (abspath (cwd example_env) (docroot example_env))"
    unfolding example_env_fields path example_root by code_simp
  have content: "fs example_env (resolve (docroot example_env) ''/../www-secret/key.txt'') =
      Some (RegularFile ''hunter2'')"
    unfolding full by (simp add: example_env_def)
  have mime: "mime_or_default example_env ''/srv/www-secret/key.txt'' =
      ''application/octet-stream''"
    by (simp add: mime_or_default_def example_env_def)
  note body = run_body_regular [OF recv_one_request parse passes content]
  from run_respond [OF body same_socket_recv_calls] full outside
  show ?thesis
    by (simp add: one_request_fresh example_env_fields path mime)
qed

text \<open>
  X1. The string form of the containment test. When the resolved path does not begin with the
  characters of the absolute document root, the first message is the 404 (and, when the
  send succeeds, the only one), and no call is made to the file system. So a file is
  opened only for a path that begins with the characters of the root.
\<close>

theorem outside_prefix_404:
  assumes "fst (recv_request w) = Some rq"
    and "parse_request_line rq = Inr (''GET'', target, version)"
    and "\<not> startswith (resolve (docroot e) target) (abspath (cwd e) (docroot e))"
  shows "sent (run e w) =
           sent w @ response_bytes (http_date e (length (sent w))) 404 ''Not Found''
                      ''text/plain'' #
             (if send_succeeds w then []
              else [response_bytes (http_date e (Suc (length (sent w)))) 500
                      ''Internal Server Error'' ''text/plain''])
         \<and> (send_succeeds w \<longrightarrow>
               wire (run e w) =
                 wire w @ response_bytes (http_date e (length (sent w))) 404 ''Not Found''
                            ''text/plain'')
         \<and> is_closed (run e w)
         \<and> fs_calls (run e w) = fs_calls w"
proof -
  note body = run_body_outside [OF assms]
  show ?thesis
    using run_respond [OF body same_socket_recv] run_is_closed [of e w]
    by (simp add: recv_request_frame)
qed

theorem outside_prefix_404_witness:
  "resolve (docroot example_env) ''/../../etc/passwd'' = ''/etc/passwd''
   \<and> sent (run example_env (one_request ''GET /../../etc/passwd HTTP/1.1'')) =
     [response_bytes ''Wed, 04 Nov 2026 12:00:00 GMT'' 404 ''Not Found'' ''text/plain'']
   \<and> fs_calls (run example_env (one_request ''GET /../../etc/passwd HTTP/1.1'')) = []"
proof -
  have parse: "parse_request_line (''GET /../../etc/passwd HTTP/1.1'' @ CRLF @ CRLF) =
      Inr (''GET'', ''/../../etc/passwd'', ''HTTP/1.1'')"
    by code_simp
  have path: "resolve ''/srv/www'' ''/../../etc/passwd'' = ''/etc/passwd''"
    by code_simp
  have outside: "\<not> startswith (resolve (docroot example_env) ''/../../etc/passwd'')
      (abspath (cwd example_env) (docroot example_env))"
    unfolding example_env_fields path example_root by code_simp
  from outside_prefix_404 [OF recv_one_request parse outside]
  show ?thesis
    by (simp add: one_request_fresh example_env_fields path)
qed

text \<open>
  C2. Every message the handler hands to \<^verbatim>\<open>sendall\<close>, whatever its status, reads back
  as a head, a blank line and a body, and the number in its Content-Length field is the
  length of that body in bytes. The clock and the MIME table are assumed to give
  single-line values. (When \<^verbatim>\<open>sendall\<close> fails part-way, only a prefix of the message
  is transmitted; the statement is about the message handed over.)
\<close>

theorem content_length_matches_body:
  assumes "single_line_env e"
  shows "\<forall>m\<in>set (drop (length (sent w)) (sent (run e w))).
           \<exists>b. body_of m = Some b \<and> content_length m = Some (length b)"
proof
  fix m
  assume m: "m \<in> set (drop (length (sent w)) (sent (run e w)))"
  from run_messages [of e w] obtain ms where
    ms: "sent (run e w) = sent w @ ms" and
    shape: "\<forall>m\<in>set ms. \<exists>n code b ct.
        m = response_bytes (http_date e n) code b ct \<and> handler_response e code b ct"
    by blast
  from m ms have "m \<in> set ms" by simp
  with shape obtain n code b ct where
    eq: "m = response_bytes (http_date e n) code b ct" and h: "handler_response e code b ct"
    by blast
  have d: "CR \<notin> set (http_date e n)"
    using assms by (simp add: single_line_env_def)
  have c: "CR \<notin> set ct"
    using assms h by (rule handler_response_single_line)
  show "\<exists>b. body_of m = Some b \<and> content_length m = Some (length b)"
    using body_of_response [OF d c] content_length_response [OF d c] eq by blast
qed

theorem content_length_matches_body_witness:
  "body_of (response_bytes ''Wed, 04 Nov 2026 12:00:00 GMT'' 405 ''Method Not Allowed''
              ''text/plain'') = Some ''Method Not Allowed''
   \<and> content_length (response_bytes ''Wed, 04 Nov 2026 12:00:00 GMT'' 405
                       ''Method Not Allowed'' ''text/plain'') = Some 18"
proof -
  let ?m = "response_bytes ''Wed, 04 Nov 2026 12:00:00 GMT'' 405 ''Method Not Allowed''
              ''text/plain''"
  let ?w = "one_request ''DELETE /index.html HTTP/1.1''"
  have "?m \<in> set (drop (length (sent ?w)) (sent (run example_env ?w)))"
    by (simp add: example_delete_sent one_request_fresh)
  with content_length_matches_body [OF example_env_single_line, of ?w]
  obtain b where b: "body_of ?m = Some b" "content_length ?m = Some (length b)"
    by blast
  have "body_of ?m = Some ''Method Not Allowed''"
    using example_date_single_line text_plain_single_line by (rule body_of_response)
  with b have "b = ''Method Not Allowed''" by simp
  with b show ?thesis by simp
qed

text \<open>
  C3. The claim, that every GET for an existing regular file within the document root is
  answered 200 with the file's bytes, fails for a file that exists and cannot be opened:
  in the sample site \<open>/srv/www/locked.txt\<close> is a regular file within the root that the
  server may not read, \<^verbatim>\<open>open\<close> raises, and \<open>GET /locked.txt\<close> is answered 500.
\<close>

theorem get_unreadable_file_counterexample:
  "within_root (abspath (cwd example_env) (docroot example_env))
     (resolve (docroot example_env) ''/locked.txt'')
   \<and> fs example_env (resolve (docroot example_env) ''/locked.txt'') = Some Unreadable
   \<and> sent (run example_env (one_request ''GET /locked.txt HTTP/1.1'')) =
       [response_bytes ''Wed, 04 Nov 2026 12:00:00 GMT'' 500 ''Internal Server Error''
          ''text/plain'']
   \<and> status_of (response_bytes ''Wed, 04 Nov 2026 12:00:00 GMT'' 500
                    ''Internal Server Error'' ''text/plain'') = Some ''500''
   \<and> fs_calls (run example_env (one_request ''GET /locked.txt HTTP/1.1'')) =
       [IsDir ''/srv/www/locked.txt'', Exists ''/srv/www/locked.txt'',
        Open ''/srv/www/locked.txt'']"
proof -
  have parse: "parse_request_line (''GET /locked.txt HTTP/1.1'' @ CRLF @ CRLF) =
      Inr (''GET'', ''/locked.txt'', ''HTTP/1.1'')"
    by code_simp
  have path: "resolve ''/srv/www'' ''/locked.txt'' = ''/srv/www/locked.txt''"
    by code_simp
  have full: "resolve (docroot example_env) ''/locked.txt'' = ''/srv/www/locked.txt''"
    by (simp add: example_env_fields path)
  have inside: "within_root (abspath (cwd example_env) (docroot example_env))
      (resolve (docroot example_env) ''/locked.txt'')"
    unfolding example_env_fields path example_root by code_simp
  then have passes: "startswith (resolve (docroot example_env) ''/locked.txt'')
      (abspath (cwd example_env) (docroot example_env))"
    by (rule within_root_startswith)
  have locked: "fs example_env (resolve (docroot example_env) ''/locked.txt'') =
      Some Unreadable"
    unfolding full by (simp add: example_env_def)
  note body = run_body_unreadable [OF recv_one_request parse passes locked]
  note out = run_raise [OF body same_socket_recv_calls]
  have st: "status_of (response_bytes ''Wed, 04 Nov 2026 12:00:00 GMT'' 500
                    ''Internal Server Error'' ''text/plain'') = Some ''500''"
    using status_of_response [OF example_date_single_line text_plain_single_line, of 500]
    by (simp add: str_int_500)
  from out(1,3) inside locked st show ?thesis
    by (simp add: one_request_fresh example_env_fields path)
qed

text \<open>
  C3, amended. When the request line parses as a GET and the resolved path lies within
  the document root and names a regular file that can be opened and read, the first
  message handed to \<^verbatim>\<open>sendall\<close> is a 200 whose Content-Length is the length of the file
  and whose body is the file's bytes; when the send succeeds it is the only message and
  these are the bytes transmitted. The handler asks whether the path is a directory,
  whether it exists, and opens it. The clock and the MIME table are assumed to give
  single-line values.
\<close>

theorem get_regular_file_200:
  assumes "single_line_env e"
    and "fst (recv_request w) = Some rq"
    and "parse_request_line rq = Inr (''GET'', target, version)"
    and "within_root (abspath (cwd e) (docroot e)) (resolve (docroot e) target)"
    and "fs e (resolve (docroot e) target) = Some (RegularFile content)"
  shows "\<exists>m. m = response_bytes (http_date e (length (sent w))) 200 content
                   (mime_or_default e (resolve (docroot e) target))
           \<and> sent (run e w) =
               sent w @ m #
                 (if send_succeeds w then []
                  else [response_bytes (http_date e (Suc (length (sent w)))) 500
                          ''Internal Server Error'' ''text/plain''])
           \<and> (send_succeeds w \<longrightarrow> wire (run e w) = wire w @ m)
           \<and> status_of m = Some ''200''
           \<and> content_length m = Some (length content)
           \<and> body_of m = Some content
           \<and> is_closed (run e w)
           \<and> fs_calls (run e w) =
               fs_calls w @ [IsDir (resolve (docroot e) target),
                             Exists (resolve (docroot e) target),
                             Open (resolve (docroot e) target)]"
proof -
  let ?full = "resolve (docroot e) target"
  let ?m = "response_bytes (http_date e (length (sent w))) 200 content
              (mime_or_default e ?full)"
  have inside: "startswith ?full (abspath (cwd e) (docroot e))"
    using assms(4) by (rule within_root_startswith)
  note body = run_body_regular [OF assms(2,3) inside assms(5)]
  note out = run_respond [OF body same_socket_recv_calls]
  have d: "CR \<notin> set (http_date e (length (sent w)))"
    using assms(1) by (simp add: single_line_env_def)
  have c: "CR \<notin> set (mime_or_default e ?full)"
    using assms(1) by (rule mime_or_default_single_line)
  have "status_of ?m = Some ''200''"
    using status_of_response [OF d c, of 200 content] by (simp add: str_int_200)
  moreover have "content_length ?m = Some (length content)"
    using d c by (rule content_length_response)
  moreover have "body_of ?m = Some content"
    using d c by (rule body_of_response)
  ultimately show ?thesis
    using out run_is_closed [of e w] by simp
qed

theorem get_regular_file_200_witness:
  "sent (run example_env (one_request ''GET /css/style.css HTTP/1.1'')) =
     [response_bytes ''Wed, 04 Nov 2026 12:00:00 GMT'' 200 ''body { margin: 0 }'' ''text/css'']
   \<and> wire (run example_env (one_request ''GET /css/style.css HTTP/1.1'')) =
     response_bytes ''Wed, 04 Nov 2026 12:00:00 GMT'' 200 ''body { margin: 0 }'' ''text/css''
   \<and> status_of (response_bytes ''Wed, 04 Nov 2026 12:00:00 GMT'' 200 ''body { margin: 0 }''
                  ''text/css'') = Some ''200''
   \<and> content_length (response_bytes ''Wed, 04 Nov 2026 12:00:00 GMT'' 200
                       ''body { margin: 0 }'' ''text/css'') = Some 18
   \<and> body_of (response_bytes ''Wed, 04 Nov 2026 12:00:00 GMT'' 200 ''body { margin: 0 }''
                ''text/css'') = Some ''body { margin: 0 }''"
proof -
  have parse: "parse_request_line (''GET /css/style.css HTTP/1.1'' @ CRLF @ CRLF) =
      Inr (''GET'', ''/css/style.css'', ''HTTP/1.1'')"
    by code_simp
  have path: "resolve ''/srv/www'' ''/css/style.css'' = ''/srv/www/css/style.css''"
    by code_simp
  have full: "resolve (docroot example_env) ''/css/style.css'' = ''/srv/www/css/style.css''"
    by (simp add: example_env_fields path)
  have inside: "within_root (abspath (cwd example_env) (docroot example_env))
      (resolve (docroot example_env) ''/css/style.css'')"
    unfolding full example_env_fields example_root by code_simp
  have content: "fs example_env (resolve (docroot example_env) ''/css/style.css'') =
      Some (RegularFile ''body { margin: 0 }'')"
    unfolding full by (simp add: example_env_def)
  have mime: "mime_or_default example_env ''/srv/www/css/style.css'' = ''text/css''"
    by (simp add: mime_or_default_def example_env_def)
  from get_regular_file_200 [OF example_env_single_line recv_one_request parse inside content]
  show ?thesis
    by (simp add: one_request_fresh example_env_fields path mime)
qed

text \<open>
  C4. The handler does not remove one leading \<open>/\<close> from the target but all of them
  (\<^verbatim>\<open>path.lstrip('/')\<close>). For the target \<open>//etc/passwd\<close> and the root \<open>/srv/www\<close> the
  handler resolves \<open>/srv/www/etc/passwd\<close>, where removing a single slash would leave the
  absolute fragment \<open>/etc/passwd\<close>, which replaces the root in the join.
\<close>

theorem resolve_single_slash_counterexample:
  "resolve ''/srv/www'' ''//etc/passwd'' = ''/srv/www/etc/passwd''
   \<and> resolve_spec ''/srv/www'' ''//etc/passwd'' = ''/etc/passwd''
   \<and> resolve ''/srv/www'' ''//etc/passwd'' \<noteq> resolve_spec ''/srv/www'' ''//etc/passwd''"
proof -
  have a: "resolve ''/srv/www'' ''//etc/passwd'' = ''/srv/www/etc/passwd''"
    by code_simp
  have b: "resolve_spec ''/srv/www'' ''//etc/passwd'' = ''/etc/passwd''"
    by code_simp
  show ?thesis unfolding a b by simp
qed

text \<open>
  C4, amended. Every leading \<open>/\<close> of the target is removed, so the fragment is relative
  and never replaces the document root in the join: it is appended to the root, after a
  \<open>/\<close> unless the root is empty or ends with one. The result is normalized by
  \<^verbatim>\<open>normpath\<close>, a function of the two strings alone (the file system is no argument of
  \<open>resolve\<close>). For a target that does not begin with two slashes this is what removing
  one slash gives. For an absolute root the result is one or two slashes followed by
  components joined with \<open>/\<close>, none of them empty, \<open>.\<close> or \<open>..\<close>.
\<close>

theorem resolve_strips_every_slash:
  "\<not> startswith (lstrip CHR ''/'' target) ''/''
   \<and> resolve root target =
       normpath ((if root = [] \<or> last root = CHR ''/'' then root else root @ ''/'') @
                 dropWhile (\<lambda>c. c = CHR ''/'') target)
   \<and> (\<not> startswith target ''//'' \<longrightarrow> resolve root target = resolve_spec root target)
   \<and> (startswith root ''/'' \<longrightarrow>
        (\<exists>k parts. (k = 1 \<or> k = 2) \<and>
           resolve root target = replicate k CHR ''/'' @ join_str ''/'' parts \<and>
           (\<forall>p\<in>set parts. p \<noteq> [] \<and> p \<noteq> ''.'' \<and> p \<noteq> ''..'' \<and> CHR ''/'' \<notin> set p)))"
proof (intro conjI impI)
  show rel: "\<not> startswith (lstrip CHR ''/'' target) ''/''"
    by (rule lstrip_relative)
  show "resolve root target =
       normpath ((if root = [] \<or> last root = CHR ''/'' then root else root @ ''/'') @
                 dropWhile (\<lambda>c. c = CHR ''/'') target)"
    using path_join_relative [OF rel, of root] by (simp add: resolve_def lstrip_def)
  show "resolve root target = resolve_spec root target" if "\<not> startswith target ''//''"
    using lstrip_one_slash [OF that] by (simp add: resolve_def resolve_spec_def)
  show "\<exists>k parts. (k = 1 \<or> k = 2) \<and>
           resolve root target = replicate k CHR ''/'' @ join_str ''/'' parts \<and>
           (\<forall>p\<in>set parts. p \<noteq> [] \<and> p \<noteq> ''.'' \<and> p \<noteq> ''..'' \<and> CHR ''/'' \<notin> set p)"
    if "startswith root ''/''"
  proof -
    have "startswith (path_join root (lstrip CHR ''/'' target)) ''/''"
      using that rel by (rule path_join_absolute)
    from normpath_absolute [OF this] show ?thesis by (simp only: resolve_def)
  qed
qed

theorem resolve_strips_every_slash_witness:
  "resolve ''/srv/www'' ''/css/../index.html'' = resolve_spec ''/srv/www'' ''/css/../index.html''
   \<and> (\<exists>k parts. (k = 1 \<or> k = 2) \<and>
         resolve ''/srv/www'' ''/css/../index.html'' =
           replicate k CHR ''/'' @ join_str ''/'' parts \<and>
         (\<forall>p\<in>set parts. p \<noteq> [] \<and> p \<noteq> ''.'' \<and> p \<noteq> ''..'' \<and> CHR ''/'' \<notin> set p))"
proof -
  have a: "\<not> startswith ''/css/../index.html'' ''//''"
    by (simp add: startswith_def)
  have b: "startswith ''/srv/www'' ''/''"
    by (simp add: startswith_def)
  from resolve_strips_every_slash [of "''/css/../index.html''" "''/srv/www''"] a b
  show ?thesis by blast
qed

text \<open>
  C5. The claim, that a request for a directory is answered 200 when the directory holds
  a file \<open>index.html\<close> and 404 otherwise, fails where the entry \<open>index.html\<close> exists
  and cannot be read as a file: in the sample site, \<open>/srv/www/docs/index.html\<close> is a
  directory, and \<open>GET /docs\<close> is answered 500.
\<close>

theorem directory_index_counterexample:
  "fs example_env (resolve (docroot example_env) ''/docs'') = Some Directory
   \<and> fs example_env (path_join (resolve (docroot example_env) ''/docs'') ''index.html'') =
       Some Directory
   \<and> sent (run example_env (one_request ''GET /docs HTTP/1.1'')) =
       [response_bytes ''Wed, 04 Nov 2026 12:00:00 GMT'' 500 ''Internal Server Error''
          ''text/plain'']
   \<and> status_of (response_bytes ''Wed, 04 Nov 2026 12:00:00 GMT'' 500
                    ''Internal Server Error'' ''text/plain'') = Some ''500''"
proof -
  have parse: "parse_request_line (''GET /docs HTTP/1.1'' @ CRLF @ CRLF) =
      Inr (''GET'', ''/docs'', ''HTTP/1.1'')"
    by code_simp
  have path: "resolve ''/srv/www'' ''/docs'' = ''/srv/www/docs''"
    by code_simp
  have index: "path_join ''/srv/www/docs'' ''index.html'' = ''/srv/www/docs/index.html''"
    by code_simp
  have inside: "startswith (resolve (docroot example_env) ''/docs'')
      (abspath (cwd example_env) (docroot example_env))"
    unfolding example_env_fields path example_root by code_simp
  have dir: "fs example_env (resolve (docroot example_env) ''/docs'') = Some Directory"
    by (simp add: example_env_fields path) (simp add: example_env_def)
  have entry: "fs example_env (path_join (resolve (docroot example_env) ''/docs'')
      ''index.html'') = Some Directory"
    by (simp add: example_env_fields path index) (simp add: example_env_def)
  then have "fs example_env (path_join (resolve (docroot example_env) ''/docs'')
      ''index.html'') = Some Directory \<or>
    fs example_env (path_join (resolve (docroot example_env) ''/docs'')
      ''index.html'') = Some Unreadable"
    by simp
  note body = run_body_index_unreadable [OF recv_one_request parse inside dir this]
  have sent: "sent (run example_env (one_request ''GET /docs HTTP/1.1'')) =
       [response_bytes ''Wed, 04 Nov 2026 12:00:00 GMT'' 500 ''Internal Server Error''
          ''text/plain'']"
    using run_raise(1) [OF body same_socket_recv_calls]
    by (simp add: one_request_fresh example_env_fields)
  have "status_of (response_bytes ''Wed, 04 Nov 2026 12:00:00 GMT'' 500
                    ''Internal Server Error'' ''text/plain'') = Some ''500''"
    using status_of_response [OF example_date_single_line text_plain_single_line, of 500]
    by (simp add: str_int_500)
  with dir entry sent show ?thesis by simp
qed

text \<open>
  C5, amended. For a GET whose resolved path passes the prefix test and is a directory:
  when \<open>index.html\<close> in it is a regular file that can be read, the first message is the
  200 with that file's bytes; when the directory has no entry \<open>index.html\<close>, the first
  message is the 404; when the entry exists and cannot be read as a file (it is a
  directory, say), the only message is the 500. The connection is closed in each case.
\<close>

theorem directory_index:
  assumes "fst (recv_request w) = Some rq"
    and "parse_request_line rq = Inr (''GET'', target, version)"
    and "startswith (resolve (docroot e) target) (abspath (cwd e) (docroot e))"
    and "fs e (resolve (docroot e) target) = Some Directory"
  shows "(\<forall>content.
            fs e (path_join (resolve (docroot e) target) ''index.html'') =
              Some (RegularFile content) \<longrightarrow>
            sent (run e w) =
              sent w @
                response_bytes (http_date e (length (sent w))) 200 content
                  (mime_or_default e (path_join (resolve (docroot e) target) ''index.html'')) #
                (if send_succeeds w then []
                 else [response_bytes (http_date e (Suc (length (sent w)))) 500
                         ''Internal Server Error'' ''text/plain'']))
         \<and> (fs e (path_join (resolve (docroot e) target) ''index.html'') = None \<longrightarrow>
            sent (run e w) =
              sent w @
                response_bytes (http_date e (length (sent w))) 404 ''Not Found''
                  ''text/plain'' #
                (if send_succeeds w then []
                 else [response_bytes (http_date e (Suc (length (sent w)))) 500
                         ''Internal Server Error'' ''text/plain'']))
         \<and> (fs e (path_join (resolve (docroot e) target) ''index.html'') = Some Directory \<or>
             fs e (path_join (resolve (docroot e) target) ''index.html'') = Some Unreadable \<longrightarrow>
            sent (run e w) =
              sent w @ [response_bytes (http_date e (length (sent w))) 500
                          ''Internal Server Error'' ''text/plain''])
         \<and> is_closed (run e w)"
proof (intro conjI allI impI)
  fix content
  assume "fs e (path_join (resolve (docroot e) target) ''index.html'') =
            Some (RegularFile content)"
  note body = run_body_index_regular [OF assms this]
  from run_respond(1) [OF body same_socket_recv_calls]
  show "sent (run e w) =
      sent w @
        response_bytes (http_date e (length (sent w))) 200 content
          (mime_or_default e (path_join (resolve (docroot e) target) ''index.html'')) #
        (if send_succeeds w then []
         else [response_bytes (http_date e (Suc (length (sent w)))) 500
                 ''Internal Server Error'' ''text/plain''])" .
next
  assume "fs e (path_join (resolve (docroot e) target) ''index.html'') = None"
  note body = run_body_index_missing [OF assms this]
  from run_respond(1) [OF body same_socket_recv_calls]
  show "sent (run e w) =
      sent w @
        response_bytes (http_date e (length (sent w))) 404 ''Not Found'' ''text/plain'' #
        (if send_succeeds w then []
         else [response_bytes (http_date e (Suc (length (sent w)))) 500
                 ''Internal Server Error'' ''text/plain''])" .
next
  assume "fs e (path_join (resolve (docroot e) target) ''index.html'') = Some Directory \<or>
          fs e (path_join (resolve (docroot e) target) ''index.html'') = Some Unreadable"
  note body = run_body_index_unreadable [OF assms this]
  from run_raise(1) [OF body same_socket_recv_calls]
  show "sent (run e w) =
      sent w @ [response_bytes (http_date e (length (sent w))) 500
                  ''Internal Server Error'' ''text/plain'']" .
next
  show "is_closed (run e w)" by (rule run_is_closed)
qed

theorem directory_index_witness:
  "sent (run example_env (one_request ''GET / HTTP/1.1'')) =
     [response_bytes ''Wed, 04 Nov 2026 12:00:00 GMT'' 200 ''<h1>hello</h1>'' ''text/html'']
   \<and> sent (run example_env (one_request ''GET /css HTTP/1.1'')) =
     [response_bytes ''Wed, 04 Nov 2026 12:00:00 GMT'' 404 ''Not Found'' ''text/plain'']"
proof -
  have parse1: "parse_request_line (''GET / HTTP/1.1'' @ CRLF @ CRLF) =
      Inr (''GET'', ''/'', ''HTTP/1.1'')"
    by code_simp
  have parse2: "parse_request_line (''GET /css HTTP/1.1'' @ CRLF @ CRLF) =
      Inr (''GET'', ''/css'', ''HTTP/1.1'')"
    by code_simp
  have path1: "resolve ''/srv/www'' ''/'' = ''/srv/www''"
    by code_simp
  have path2: "resolve ''/srv/www'' ''/css'' = ''/srv/www/css''"
    by code_simp
  have index1: "path_join ''/srv/www'' ''index.html'' = ''/srv/www/index.html''"
    by code_simp
  have index2: "path_join ''/srv/www/css'' ''index.html'' = ''/srv/www/css/index.html''"
    by code_simp
  have inside1: "startswith (resolve (docroot example_env) ''/'')
      (abspath (cwd example_env) (docroot example_env))"
    unfolding example_env_fields path1 example_root by code_simp
  have inside2: "startswith (resolve (docroot example_env) ''/css'')
      (abspath (cwd example_env) (docroot example_env))"
    unfolding example_env_fields path2 example_root by code_simp
  have dir1: "fs example_env (resolve (docroot example_env) ''/'') = Some Directory"
    by (simp add: example_env_fields path1) (simp add: example_env_def)
  have dir2: "fs example_env (resolve (docroot example_env) ''/css'') = Some Directory"
    by (simp add: example_env_fields path2) (simp add: example_env_def)
  have page: "fs example_env (path_join (resolve (docroot example_env) ''/'') ''index.html'') =
      Some (RegularFile ''<h1>hello</h1>'')"
    by (simp add: example_env_fields path1 index1) (simp add: example_env_def)
  have none: "fs example_env (path_join (resolve (docroot example_env) ''/css'') ''index.html'') =
      None"
    by (simp add: example_env_fields path2 index2) (simp add: example_env_def)
  have mime: "mime_or_default example_env ''/srv/www/index.html'' = ''text/html''"
    by (simp add: mime_or_default_def example_env_def)
  from directory_index [OF recv_one_request parse1 inside1 dir1] page
  have a: "sent (run example_env (one_request ''GET / HTTP/1.1'')) =
     [response_bytes ''Wed, 04 Nov 2026 12:00:00 GMT'' 200 ''<h1>hello</h1>'' ''text/html'']"
    by (simp add: one_request_fresh example_env_fields path1 index1 mime)
  from directory_index [OF recv_one_request parse2 inside2 dir2] none
  have b: "sent (run example_env (one_request ''GET /css HTTP/1.1'')) =
     [response_bytes ''Wed, 04 Nov 2026 12:00:00 GMT'' 404 ''Not Found'' ''text/plain'']"
    by (simp add: one_request_fresh example_env_fields)
  from a b show ?thesis by simp
qed

text \<open>
  C6. When the request line parses and its method is not exactly \<open>GET\<close>, the first
  message handed to \<^verbatim>\<open>sendall\<close> is the 405 with the body \<open>Method Not Allowed\<close> and the
  type \<open>text/plain\<close>; when the send succeeds it is the only message and these are the
  bytes transmitted (when it fails the handler attempts a 500 next); the connection is
  closed and the log of file system calls is unchanged.
\<close>

theorem non_get_method_405:
  assumes "fst (recv_request w) = Some rq"
    and "parse_request_line rq = Inr (method, path, version)"
    and "method \<noteq> ''GET''"
  shows "sent (run e w) =
           sent w @ response_bytes (http_date e (length (sent w))) 405
                      ''Method Not Allowed'' ''text/plain'' #
             (if send_succeeds w then []
              else [response_bytes (http_date e (Suc (length (sent w)))) 500
                      ''Internal Server Error'' ''text/plain''])
         \<and> (send_succeeds w \<longrightarrow>
               wire (run e w) =
                 wire w @ response_bytes (http_date e (length (sent w))) 405
                            ''Method Not Allowed'' ''text/plain'')
         \<and> is_closed (run e w)
         \<and> fs_calls (run e w) = fs_calls w"
proof -
  note body = run_body_not_get [OF assms, of e]
  note same = same_socket_recv [of w]
  show ?thesis
    using run_respond [OF body same] run_is_closed [of e w]
    by (simp add: recv_request_frame)
qed

theorem non_get_method_405_witness:
  "sent (run example_env (one_request ''DELETE /index.html HTTP/1.1'')) =
     [response_bytes ''Wed, 04 Nov 2026 12:00:00 GMT'' 405 ''Method Not Allowed'' ''text/plain'']
   \<and> wire (run example_env (one_request ''DELETE /index.html HTTP/1.1'')) =
     response_bytes ''Wed, 04 Nov 2026 12:00:00 GMT'' 405 ''Method Not Allowed'' ''text/plain''
   \<and> is_closed (run example_env (one_request ''DELETE /index.html HTTP/1.1''))
   \<and> fs_calls (run example_env (one_request ''DELETE /index.html HTTP/1.1'')) = []"
proof -
  have "''DELETE'' \<noteq> ''GET''" by simp
  from non_get_method_405 [OF recv_one_request parse_delete this, of example_env]
  show ?thesis by (simp add: one_request_fresh example_env_fields)
qed

text \<open>
  C7. When bytes were received and the first line of the request is empty or has fewer
  than three words, the handler hands exactly one response to \<^verbatim>\<open>sendall\<close>, the 500
  with the body \<open>Internal Server Error\<close>; when the send succeeds these are the bytes
  transmitted; the connection is closed and no file is touched.
\<close>

theorem malformed_request_500:
  assumes "fst (recv_request w) = Some rq"
    and "rq \<noteq> []"
    and "hd (split_crlf rq) = [] \<or> length (split_ws (hd (split_crlf rq))) < 3"
  shows "sent (run e w) =
           sent w @ [response_bytes (http_date e (length (sent w))) 500
                       ''Internal Server Error'' ''text/plain'']
         \<and> (send_succeeds w \<longrightarrow>
               wire (run e w) =
                 wire w @ response_bytes (http_date e (length (sent w))) 500
                            ''Internal Server Error'' ''text/plain'')
         \<and> is_closed (run e w)
         \<and> fs_calls (run e w) = fs_calls w"
proof -
  from parse_request_line_malformed [OF assms(3)] obtain msg where
    "parse_request_line rq = Inl (ValueError msg)" by blast
  note body = run_body_malformed [OF assms(1,2) this, of e]
  show ?thesis
    using run_raise [OF body same_socket_recv] run_is_closed [of e w]
    by (simp add: recv_request_frame)
qed

theorem malformed_request_500_witness:
  "sent (run example_env (one_request ''GET /index.html'')) =
     [response_bytes ''Wed, 04 Nov 2026 12:00:00 GMT'' 500 ''Internal Server Error''
        ''text/plain'']
   \<and> wire (run example_env (one_request ''GET /index.html'')) =
     response_bytes ''Wed, 04 Nov 2026 12:00:00 GMT'' 500 ''Internal Server Error''
       ''text/plain''
   \<and> is_closed (run example_env (one_request ''GET /index.html''))
   \<and> fs_calls (run example_env (one_request ''GET /index.html'')) = []"
proof -
  have ne: "''GET /index.html'' @ CRLF @ CRLF \<noteq> []" by simp
  have "length (split_ws (hd (split_crlf (''GET /index.html'' @ CRLF @ CRLF)))) = 2"
    by code_simp
  then have few: "hd (split_crlf (''GET /index.html'' @ CRLF @ CRLF)) = [] \<or>
      length (split_ws (hd (split_crlf (''GET /index.html'' @ CRLF @ CRLF)))) < 3"
    by simp
  from malformed_request_500 [OF recv_one_request ne few, of example_env]
  show ?thesis by (simp add: one_request_fresh example_env_fields)
qed

text \<open>
  C8. When no byte is ever received (the first \<^verbatim>\<open>recv\<close> finds the peer closed, returns
  nothing or times out), or when a \<^verbatim>\<open>recv\<close> of the read loop raises an error other than
  a timeout (after any number of chunks that do not yet hold the blank line), no byte is
  transmitted, the connection is closed and no file is touched. Unless closing the socket
  raises, \<^verbatim>\<open>sendall\<close> is not even called; when it raises, the 500 the handler then
  attempts goes to the closed socket and transmits nothing.
\<close>

theorem silent_abort:
  assumes "(inbox w = [] \<or> (\<exists>rest. inbox w = Chunk [] # rest) \<or>
            (\<exists>rest. inbox w = Timeout # rest))
           \<or> (\<exists>cs rest. inbox w = map Chunk cs @ RecvError # rest \<and>
                  (\<forall>c\<in>set cs. c \<noteq> []) \<and> \<not> contains (CRLF @ CRLF) (concat cs))"
  shows "wire (run e w) = wire w
         \<and> is_closed (run e w)
         \<and> fs_calls (run e w) = fs_calls w
         \<and> (is_closed w \<or> \<not> close_raises w \<longrightarrow> sent (run e w) = sent w)"
proof -
  from assms have "fst (recv_request w) = None \<or> fst (recv_request w) = Some []"
  proof
    assume "inbox w = [] \<or> (\<exists>rest. inbox w = Chunk [] # rest) \<or>
            (\<exists>rest. inbox w = Timeout # rest)"
    then have "fst (recv_request w) = Some []" by (rule recv_request_zero_bytes)
    then show ?thesis by simp
  next
    assume "\<exists>cs rest. inbox w = map Chunk cs @ RecvError # rest \<and>
              (\<forall>c\<in>set cs. c \<noteq> []) \<and> \<not> contains (CRLF @ CRLF) (concat cs)"
    then obtain cs rest where "inbox w = map Chunk cs @ RecvError # rest"
      and "\<forall>c\<in>set cs. c \<noteq> []" and "\<not> contains (CRLF @ CRLF) (concat cs)"
      by blast
    then have "fst (recv_request w) = None" by (rule recv_request_error)
    then show ?thesis by simp
  qed
  then show ?thesis by (rule run_silent)
qed

theorem silent_abort_witness:
  "wire (run example_env (accepted [] [] False)) = []
   \<and> sent (run example_env (accepted [] [] False)) = []
   \<and> is_closed (run example_env (accepted [] [] False))
   \<and> wire (run example_env (accepted [Chunk ''GET /'', RecvError] [] True)) = []
   \<and> is_closed (run example_env (accepted [Chunk ''GET /'', RecvError] [] True))"
proof -
  have a: "(inbox (accepted [] [] False) = [] \<or>
            (\<exists>rest. inbox (accepted [] [] False) = Chunk [] # rest) \<or>
            (\<exists>rest. inbox (accepted [] [] False) = Timeout # rest))
           \<or> (\<exists>cs rest. inbox (accepted [] [] False) = map Chunk cs @ RecvError # rest \<and>
                  (\<forall>c\<in>set cs. c \<noteq> []) \<and> \<not> contains (CRLF @ CRLF) (concat cs))"
    by (simp add: accepted_def)
  have quiet: "\<not> contains (CRLF @ CRLF) (concat [''GET /''])"
    by code_simp
  have "inbox (accepted [Chunk ''GET /'', RecvError] [] True) =
          map Chunk [''GET /''] @ RecvError # [] \<and>
        (\<forall>c\<in>set [''GET /'']. c \<noteq> []) \<and> \<not> contains (CRLF @ CRLF) (concat [''GET /''])"
    using quiet by (simp add: accepted_def)
  then have b: "(inbox (accepted [Chunk ''GET /'', RecvError] [] True) = [] \<or>
            (\<exists>rest. inbox (accepted [Chunk ''GET /'', RecvError] [] True) = Chunk [] # rest) \<or>
            (\<exists>rest. inbox (accepted [Chunk ''GET /'', RecvError] [] True) = Timeout # rest))
           \<or> (\<exists>cs rest. inbox (accepted [Chunk ''GET /'', RecvError] [] True) =
                    map Chunk cs @ RecvError # rest \<and>
                  (\<forall>c\<in>set cs. c \<noteq> []) \<and> \<not> contains (CRLF @ CRLF) (concat cs))"
    by blast
  from silent_abort [OF a, of example_env] silent_abort [OF b, of example_env]
  show ?thesis by (simp add: accepted_def)
qed

text \<open>
  C9. Whatever the peer, the file system and the socket do, the handler ends with the
  connection closed: after a 200, a 404 or a 405, after the 500 for a request line that
  does not parse, after the silent abort, and after an internal error, also when the 500
  itself cannot be sent. The model of \<^verbatim>\<open>run\<close> is a total function, so handling always
  completes on a finite script of the socket.
\<close>

theorem run_closes_connection: "is_closed (run e w)"
proof (cases "run_body e w")
  case (Pair r w1)
  show ?thesis
  proof (cases r)
    case (Inl ex)
    with Pair show ?thesis by (simp add: run_def close_closed)
  next
    case (Inr u)
    with Pair show ?thesis by (simp add: run_def close_closed)
  qed
qed

theorem run_closes_connection_witness:
  "is_closed (run example_env (accepted [Chunk ''GET / HTTP/1.1'', Timeout]
                                 [SendFail 5, SendFail 0] True))"
  using run_closes_connection [of example_env
          "accepted [Chunk ''GET / HTTP/1.1'', Timeout] [SendFail 5, SendFail 0] True"] .

text \<open>
  C10. Every message the handler hands to \<^verbatim>\<open>sendall\<close> whose status reads 404, 405 or
  500 has as body exactly its reason phrase (\<open>Not Found\<close>, \<open>Method Not Allowed\<close>,
  \<open>Internal Server Error\<close>) and a Content-Type field \<open>text/plain\<close>. The clock and the
  MIME table are assumed to give single-line values.
\<close>

theorem error_responses_carry_reason:
  assumes "single_line_env e"
  shows "\<forall>m\<in>set (drop (length (sent w)) (sent (run e w))).
           (status_of m = Some ''404'' \<longrightarrow>
              body_of m = Some ''Not Found'' \<and>
              header_field ''Content-Type'' m = Some ''text/plain'') \<and>
           (status_of m = Some ''405'' \<longrightarrow>
              body_of m = Some ''Method Not Allowed'' \<and>
              header_field ''Content-Type'' m = Some ''text/plain'') \<and>
           (status_of m = Some ''500'' \<longrightarrow>
              body_of m = Some ''Internal Server Error'' \<and>
              header_field ''Content-Type'' m = Some ''text/plain'')"
proof
  fix m
  assume m: "m \<in> set (drop (length (sent w)) (sent (run e w)))"
  from run_messages [of e w] obtain ms where
    ms: "sent (run e w) = sent w @ ms" and
    shape: "\<forall>m\<in>set ms. \<exists>n code b ct.
        m = response_bytes (http_date e n) code b ct \<and> handler_response e code b ct"
    by blast
  from m ms have "m \<in> set ms" by simp
  with shape obtain n code b ct where
    eq: "m = response_bytes (http_date e n) code b ct" and h: "handler_response e code b ct"
    by blast
  have d: "CR \<notin> set (http_date e n)"
    using assms by (simp add: single_line_env_def)
  have c: "CR \<notin> set ct"
    using assms h by (rule handler_response_single_line)
  have st: "status_of m = Some (str_int code)"
    using status_of_response [OF d c] eq by simp
  have bd: "body_of m = Some b"
    using body_of_response [OF d c] eq by simp
  have ty: "header_field ''Content-Type'' m = Some (utf8_encode ct)"
    using content_type_response [OF d c] eq by simp
  have plain: "utf8_encode ''text/plain'' = ''text/plain''"
    by (simp add: utf8_encode_ascii_Cons utf8_encode_Nil)
  from h consider
    (c405) "code = 405" "b = ''Method Not Allowed''" "ct = ''text/plain''"
    | (c404) "code = 404" "b = ''Not Found''" "ct = ''text/plain''"
    | (c500) "code = 500" "b = ''Internal Server Error''" "ct = ''text/plain''"
    | (c200) "code = 200"
    by (auto simp: handler_response_def)
  then show "(status_of m = Some ''404'' \<longrightarrow>
              body_of m = Some ''Not Found'' \<and>
              header_field ''Content-Type'' m = Some ''text/plain'') \<and>
           (status_of m = Some ''405'' \<longrightarrow>
              body_of m = Some ''Method Not Allowed'' \<and>
              header_field ''Content-Type'' m = Some ''text/plain'') \<and>
           (status_of m = Some ''500'' \<longrightarrow>
              body_of m = Some ''Internal Server Error'' \<and>
              header_field ''Content-Type'' m = Some ''text/plain'')"
  proof cases
    case c405
    then show ?thesis using st bd ty plain by (simp add: status_strings)
  next
    case c404
    then show ?thesis using st bd ty plain by (simp add: status_strings)
  next
    case c500
    then show ?thesis using st bd ty plain by (simp add: status_strings)
  next
    case c200
    then show ?thesis using st by (simp add: status_strings)
  qed
qed

theorem error_responses_carry_reason_witness:
  "status_of (response_bytes ''Wed, 04 Nov 2026 12:00:00 GMT'' 405 ''Method Not Allowed''
              ''text/plain'') = Some ''405''
   \<and> body_of (response_bytes ''Wed, 04 Nov 2026 12:00:00 GMT'' 405 ''Method Not Allowed''
              ''text/plain'') = Some ''Method Not Allowed''
   \<and> header_field ''Content-Type''
        (response_bytes ''Wed, 04 Nov 2026 12:00:00 GMT'' 405 ''Method Not Allowed''
           ''text/plain'') = Some ''text/plain''"
proof -
  let ?m = "response_bytes ''Wed, 04 Nov 2026 12:00:00 GMT'' 405 ''Method Not Allowed''
              ''text/plain''"
  let ?w = "one_request ''DELETE /index.html HTTP/1.1''"
  have m: "?m \<in> set (drop (length (sent ?w)) (sent (run example_env ?w)))"
    by (simp add: example_delete_sent one_request_fresh)
  have st: "status_of ?m = Some ''405''"
    using status_of_response [OF example_date_single_line text_plain_single_line, of 405]
    by (simp add: str_int_405)
  from error_responses_carry_reason [OF example_env_single_line, of ?w] m st
  show ?thesis by blast
qed

end
